theory Spec2Isabelle
  imports
    Main
    "HOL-Library.Char_ord"
    "HOL-Library.List_Lexorder"
    "HOL-Library.Multiset"
    "HOL-Library.Log_Nat"
begin

section \<open>Go values: errors, panics and results\<close>

text \<open>
  A Go \<^verbatim>\<open>error\<close> is either a leaf created by \<^verbatim>\<open>errors.New\<close> / \<^verbatim>\<open>fmt.Errorf\<close> without
  \<^verbatim>\<open>%w\<close>, or a wrapper created by \<^verbatim>\<open>fmt.Errorf("prefix %w suffix", err)\<close>.  The wrapper
  keeps its cause, which is what \<^verbatim>\<open>errors.Is\<close> walks.
\<close>

datatype error = Err string | Wrapf string error string

fun Error_msg :: "error \<Rightarrow> string" where
  "Error_msg (Err s) = s"
| "Error_msg (Wrapf pre e post) = pre @ Error_msg e @ post"

fun errors_Is :: "error \<Rightarrow> error \<Rightarrow> bool" where
  "errors_Is (Err s) target = (Err s = target)"
| "errors_Is (Wrapf pre e post) target =
     (Wrapf pre e post = target \<or> errors_Is e target)"

text \<open>
  The outcome of a Go call: it returns a value with a nil error, returns a non-nil error,
  or panics (nil dereference, index out of range).
\<close>

datatype 'a result = Ok 'a | Failed error | Panic

section \<open>Scoring configuration (internal/scoring/config.go)\<close>

record RadioConfig =
  Opts :: "string list"
  PScores :: "int list"
  IScores :: "int list"

record TextConfig =
  Threshold :: int
  PShort :: int
  PLong :: int
  IShort :: int
  ILong :: int

text \<open>
  \<^verbatim>\<open>ScoringConfig\<close> holds two pointers, of which the parser sets exactly one.
\<close>

record ScoringConfig =
  radio :: "RadioConfig option"
  text_cfg :: "TextConfig option"

text \<open>
  \<^verbatim>\<open>json.RawMessage\<close>: the JSON decoder is the standard library's, so a raw blob is
  represented by what decoding it yields.  \<open>RawEmpty\<close> is the zero-length blob,
  \<open>RawMalformed\<close> a blob whose type probe cannot be decoded, and \<open>RawTyped ty rc tc\<close> a blob
  whose \<^verbatim>\<open>"type"\<close> field decodes to \<open>ty\<close>, whose decoding as a \<^verbatim>\<open>RadioConfig\<close> gives \<open>rc\<close>
  and whose decoding as a \<^verbatim>\<open>TextConfig\<close> gives \<open>tc\<close> (\<open>None\<close> when that decoding
  fails).
\<close>

datatype RawMessage =
    RawEmpty
  | RawMalformed
  | RawTyped string "RadioConfig option" "TextConfig option"

definition score_out_of_range :: "int \<Rightarrow> bool" where
  "score_out_of_range s \<longleftrightarrow> s < 1 \<or> s > 10"

definition RadioConfig_Validate :: "RadioConfig \<Rightarrow> error option" where
  "RadioConfig_Validate c =
     (let n = length (Opts c) in
      if n = 0 then Some (Err ''radio config: opts must not be empty'')
      else if length (PScores c) \<noteq> n then Some (Err ''radio config: p_scores length != opts length'')
      else if length (IScores c) \<noteq> n then Some (Err ''radio config: i_scores length != opts length'')
      else if list_ex score_out_of_range (PScores c) then Some (Err ''radio config: p_scores out of range [1,10]'')
      else if list_ex score_out_of_range (IScores c) then Some (Err ''radio config: i_scores out of range [1,10]'')
      else None)"

definition TextConfig_Validate :: "TextConfig \<Rightarrow> error option" where
  "TextConfig_Validate c =
     (if list_ex score_out_of_range [PShort c, PLong c, IShort c, ILong c]
      then Some (Err ''text config: score out of range [1,10]'')
      else if Threshold c < 0 then Some (Err ''text config: threshold must be >= 0'')
      else None)"

definition ParseScoringConfig :: "RawMessage \<Rightarrow> ScoringConfig result" where
  "ParseScoringConfig raw =
     (case raw of
        RawEmpty \<Rightarrow> Failed (Err ''scoring config: empty JSON'')
      | RawMalformed \<Rightarrow> Failed (Err ''scoring config: cannot read type field'')
      | RawTyped ty rc tc \<Rightarrow>
          if ty = ''radio'' then
            (case rc of
               None \<Rightarrow> Failed (Err ''scoring config: cannot unmarshal radio config'')
             | Some cfg \<Rightarrow>
                 (case RadioConfig_Validate cfg of
                    Some e \<Rightarrow> Failed e
                  | None \<Rightarrow> Ok \<lparr>radio = Some cfg, text_cfg = None\<rparr>))
          else if ty = ''text'' then
            (case tc of
               None \<Rightarrow> Failed (Err ''scoring config: cannot unmarshal text config'')
             | Some cfg \<Rightarrow>
                 (case TextConfig_Validate cfg of
                    Some e \<Rightarrow> Failed e
                  | None \<Rightarrow> Ok \<lparr>radio = None, text_cfg = Some cfg\<rparr>))
          else Failed (Err (''scoring config: unknown type '' @ ty)))"

text \<open>
  Callers test a configuration with \<^verbatim>\<open>IsRadio\<close> and \<^verbatim>\<open>IsText\<close> and then read it with
  \<^verbatim>\<open>Radio\<close> or \<^verbatim>\<open>Text\<close>, which is a case distinction on the two pointers.
\<close>

definition IsRadio :: "ScoringConfig \<Rightarrow> bool" where
  "IsRadio sc \<longleftrightarrow> radio sc \<noteq> None"

definition IsText :: "ScoringConfig \<Rightarrow> bool" where
  "IsText sc \<longleftrightarrow> text_cfg sc \<noteq> None"

section \<open>Scoring engine (internal/scoring/scorer.go)\<close>

definition highImpactThreshold :: int where
  "highImpactThreshold = 7"

definition highProbThreshold :: int where
  "highProbThreshold = 6"

datatype RiskTier = TierWatch | TierRed | TierManage | TierIgnore

record ScoredRisk =
  QuestionID :: string
  Rank :: int
  RiskName :: string
  RiskDesc :: string
  Hedge :: string
  Section :: string
  P :: int
  I :: int
  Score :: int
  Tier :: RiskTier

text \<open>
  The fields of \<^verbatim>\<open>AnswerRow\<close> that share a name with a field of \<^verbatim>\<open>ScoredRisk\<close> carry the
  prefix \<open>row\<close>.
\<close>

record AnswerRow =
  rowQuestionID :: string
  AnswerText :: string
  SectionTitle :: string
  rowRiskName :: string
  rowRiskDesc :: string
  rowHedge :: string
  rowScoringConfig :: RawMessage
  IsScoring :: bool

definition clamp :: "int \<Rightarrow> int" where
  "clamp v = (if v < 1 then 1 else if v > 10 then 10 else v)"

subsection \<open>strings.TrimSpace\<close>

text \<open>
  A Go string is a byte sequence, here a \<^typ>\<open>string\<close>; \<^verbatim>\<open>len\<close> counts bytes.
  \<^verbatim>\<open>strings.TrimSpace\<close> (standard library) removes every leading and trailing Unicode
  white-space rune.  On UTF-8 bytes these runes are the six ASCII ones and the encodings
  of U+0085, U+00A0, U+1680, U+2000..U+200A, U+2028, U+2029, U+202F, U+205F, U+3000.
\<close>

definition space_runes :: "string list" where
  "space_runes =
     map (\<lambda>c. [c]) [CHR 0x09, CHR 0x0A, CHR 0x0B, CHR 0x0C, CHR 0x0D, CHR 0x20]
     @ [[CHR 0xC2, CHR 0x85], [CHR 0xC2, CHR 0xA0], [CHR 0xE1, CHR 0x9A, CHR 0x80]]
     @ map (\<lambda>c. [CHR 0xE2, CHR 0x80, c])
         [CHR 0x80, CHR 0x81, CHR 0x82, CHR 0x83, CHR 0x84, CHR 0x85, CHR 0x86, CHR 0x87,
          CHR 0x88, CHR 0x89, CHR 0x8A, CHR 0xA8, CHR 0xA9, CHR 0xAF]
     @ [[CHR 0xE2, CHR 0x81, CHR 0x9F], [CHR 0xE3, CHR 0x80, CHR 0x80]]"

fun strip_one :: "string list \<Rightarrow> string \<Rightarrow> string option" where
  "strip_one [] s = None"
| "strip_one (p # ps) s =
     (if p \<noteq> [] \<and> take (length p) s = p then Some (drop (length p) s) else strip_one ps s)"

function strip_all :: "string list \<Rightarrow> string \<Rightarrow> string" where
  "strip_all ps s =
     (case strip_one ps s of
        None \<Rightarrow> s
      | Some s' \<Rightarrow> if length s' < length s then strip_all ps s' else s)"
  by pat_completeness auto
termination
  by (relation "measure (\<lambda>(ps, s). length s)") auto

definition TrimSpace :: "string \<Rightarrow> string" where
  "TrimSpace s = rev (strip_all (map rev space_runes) (rev (strip_all space_runes s)))"

subsection \<open>ScoreAnswer\<close>

definition go_index :: "'a list \<Rightarrow> nat \<Rightarrow> 'a option" where
  "go_index xs i = (if i < length xs then Some (xs ! i) else None)"

text \<open>
  The \<^verbatim>\<open>for idx, opt := range rc.Opts\<close> loop; \<open>idx\<close> is the index of the head of the
  remaining options.  Indexing a score slice out of range panics.
\<close>

fun radio_loop :: "RadioConfig \<Rightarrow> nat \<Rightarrow> string list \<Rightarrow> string \<Rightarrow> (int \<times> int) result" where
  "radio_loop rc idx [] answer = Ok (1, 1)"
| "radio_loop rc idx (opt # opts) answer =
     (if opt = answer then
        (case go_index (PScores rc) idx of
           None \<Rightarrow> Panic
         | Some p \<Rightarrow>
             (case go_index (IScores rc) idx of
                None \<Rightarrow> Panic
              | Some i \<Rightarrow> Ok (clamp p, clamp i)))
      else radio_loop rc (Suc idx) opts answer)"

definition ScoreAnswer :: "RawMessage \<Rightarrow> string \<Rightarrow> (int \<times> int) result" where
  "ScoreAnswer rawConfig answer0 =
     (case ParseScoringConfig rawConfig of
        Failed e \<Rightarrow> Failed (Wrapf ''ScoreAnswer: '' e [])
      | Panic \<Rightarrow> Panic
      | Ok cfg \<Rightarrow>
          (let answer = TrimSpace answer0 in
           case radio cfg of
             Some rc \<Rightarrow> radio_loop rc 0 (Opts rc) answer
           | None \<Rightarrow>
               (case text_cfg cfg of
                  Some tc \<Rightarrow>
                    if int (length answer) > Threshold tc
                    then Ok (clamp (PLong tc), clamp (ILong tc))
                    else Ok (clamp (PShort tc), clamp (IShort tc))
                | None \<Rightarrow> Ok (1, 1))))"

definition GetTier :: "int \<Rightarrow> int \<Rightarrow> RiskTier" where
  "GetTier p i =
     (let highImpact = (i \<ge> highImpactThreshold);
          highProb = (p \<ge> highProbThreshold)
      in if highImpact \<and> highProb then TierWatch
         else if highImpact \<and> \<not> highProb then TierRed
         else if \<not> highImpact \<and> highProb then TierManage
         else TierIgnore)"

subsection \<open>ComputeRisks\<close>

definition new_risk :: "AnswerRow \<Rightarrow> int \<Rightarrow> int \<Rightarrow> ScoredRisk" where
  "new_risk row p i =
     \<lparr>QuestionID = rowQuestionID row, Rank = 0, RiskName = rowRiskName row,
      RiskDesc = rowRiskDesc row, Hedge = rowHedge row, Section = SectionTitle row,
      P = p, I = i, Score = p * i, Tier = GetTier p i\<rparr>"

text \<open>The first loop of \<^verbatim>\<open>ComputeRisks\<close>; \<open>risks\<close> is the slice built so far.\<close>

fun score_rows :: "AnswerRow list \<Rightarrow> ScoredRisk list \<Rightarrow> ScoredRisk list result" where
  "score_rows [] risks = Ok risks"
| "score_rows (row # rows) risks =
     (if \<not> IsScoring row then score_rows rows risks
      else
        (case ScoreAnswer (rowScoringConfig row) (AnswerText row) of
           Failed e \<Rightarrow> Failed (Wrapf (''question '' @ rowQuestionID row @ '': '') e [])
         | Panic \<Rightarrow> Panic
         | Ok (p, i) \<Rightarrow> score_rows rows (risks @ [new_risk row p i])))"

text \<open>The comparison closure handed to \<^verbatim>\<open>sort.Slice\<close>; Go compares strings bytewise.\<close>

definition risk_less :: "ScoredRisk \<Rightarrow> ScoredRisk \<Rightarrow> bool" where
  "risk_less a b =
     (if Score a \<noteq> Score b then Score a > Score b else QuestionID a < QuestionID b)"

fun assign_ranks :: "nat \<Rightarrow> ScoredRisk list \<Rightarrow> ScoredRisk list" where
  "assign_ranks idx [] = []"
| "assign_ranks idx (r # rs) = r\<lparr>Rank := int idx + 1\<rparr> # assign_ranks (Suc idx) rs"

text \<open>
  \<^verbatim>\<open>sort.Slice\<close> belongs to the standard library and is not stable: which permutation it
  produces among elements that compare equal is not specified.  \<open>ComputeRisks\<close> therefore
  takes the sorting routine as its first argument; \<open>sort_contract\<close> is what the library
  promises for the closure above, and \<open>sort_Slice\<close> (insertion sort, which the library
  itself runs on short slices) is one routine that keeps the promise.
\<close>

definition ComputeRisks ::
  "((ScoredRisk \<Rightarrow> ScoredRisk \<Rightarrow> bool) \<Rightarrow> ScoredRisk list \<Rightarrow> ScoredRisk list)
    \<Rightarrow> AnswerRow list \<Rightarrow> ScoredRisk list result" where
  "ComputeRisks srt rows =
     (case score_rows rows [] of
        Failed e \<Rightarrow> Failed e
      | Panic \<Rightarrow> Panic
      | Ok risks \<Rightarrow> Ok (assign_ranks 0 (srt risk_less risks)))"

definition sort_contract ::
  "((ScoredRisk \<Rightarrow> ScoredRisk \<Rightarrow> bool) \<Rightarrow> ScoredRisk list \<Rightarrow> ScoredRisk list) \<Rightarrow> bool" where
  "sort_contract srt \<longleftrightarrow>
     (\<forall>xs. mset (srt risk_less xs) = mset xs
        \<and> sorted_wrt (\<lambda>a b. \<not> risk_less b a) (srt risk_less xs))"

fun insert_by :: "('a \<Rightarrow> 'a \<Rightarrow> bool) \<Rightarrow> 'a \<Rightarrow> 'a list \<Rightarrow> 'a list" where
  "insert_by lt x [] = [x]"
| "insert_by lt x (y # ys) =
     (if lt x y then x # y # ys else y # insert_by lt x ys)"

definition sort_Slice :: "('a \<Rightarrow> 'a \<Rightarrow> bool) \<Rightarrow> 'a list \<Rightarrow> 'a list" where
  "sort_Slice lt xs = foldr (insert_by lt) xs []"

text \<open>\<open>row_scores_to row r\<close>: \<open>r\<close> is the risk the loop appends for \<open>row\<close>.\<close>

definition row_scores_to :: "AnswerRow \<Rightarrow> ScoredRisk \<Rightarrow> bool" where
  "row_scores_to row r =
     (case ScoreAnswer (rowScoringConfig row) (AnswerText row) of
        Ok (p, i) \<Rightarrow> r = new_risk row p i
      | _ \<Rightarrow> False)"

text \<open>The sort key read by \<open>risk_less\<close>, and the order it induces.\<close>

definition risk_key :: "ScoredRisk \<Rightarrow> int \<times> string" where
  "risk_key r = (Score r, QuestionID r)"

definition key_le :: "int \<times> string \<Rightarrow> int \<times> string \<Rightarrow> bool" where
  "key_le a b \<longleftrightarrow> fst a > fst b \<or> (fst a = fst b \<and> snd a \<le> snd b)"

subsection \<open>Machine arithmetic used by OverallScore\<close>

text \<open>Go's \<^verbatim>\<open>int\<close> is 64 bits wide on the build targets; \<open>wrap64\<close> is two's-complement wrap-around.\<close>

definition wrap64 :: "int \<Rightarrow> int" where
  "wrap64 x = (x + 2 ^ 63) mod 2 ^ 64 - 2 ^ 63"

text \<open>
  A finite \<^verbatim>\<open>float64\<close> is a rational number.  \<open>f64_round\<close> is IEEE 754 rounding to the
  nearest number with a 53-bit significand, ties to the even significand.  The exponent range
  is not modelled: the definition is the binary64 rounding for magnitudes from \<open>2 ^ -1022\<close> up
  to \<open>2 ^ 1024\<close>, which holds every value \<open>OverallScore\<close> computes (an \<^verbatim>\<open>int\<close>, a quotient of
  two of them, that quotient plus one half).
\<close>

definition round_even :: "rat \<Rightarrow> int" where
  "round_even x =
     (let f = \<lfloor>x\<rfloor>; d = x - of_int f in
      if d < 1 / 2 then f else if d > 1 / 2 then f + 1 else if even f then f else f + 1)"

text \<open>For \<open>x > 0\<close>, \<open>floor_log2 x\<close> is the \<open>e\<close> with \<open>2 ^ e \<le> x < 2 ^ (e + 1)\<close>.\<close>

definition floor_log2 :: "rat \<Rightarrow> int" where
  "floor_log2 x =
     (let (p, q) = quotient_of x; d = bitlen p - bitlen q in
      if 2 powi d \<le> x then d else d - 1)"

definition f64_round :: "rat \<Rightarrow> rat" where
  "f64_round x =
     (if x = 0 then 0
      else let u = 2 powi (floor_log2 \<bar>x\<bar> - 52) in of_int (round_even (x / u)) * u)"

definition f64_of_int :: "int \<Rightarrow> rat" where
  "f64_of_int i = f64_round (of_int i)"

definition f64_div :: "rat \<Rightarrow> rat \<Rightarrow> rat" where
  "f64_div a b = f64_round (a / b)"

definition f64_add :: "rat \<Rightarrow> rat \<Rightarrow> rat" where
  "f64_add a b = f64_round (a + b)"

text \<open>
  The conversion \<^verbatim>\<open>int(x)\<close> of a float discards the fraction, towards zero.  (Go leaves the
  result open when the value does not fit the integer type; that case is not modelled.)
\<close>

definition int_of_f64 :: "rat \<Rightarrow> int" where
  "int_of_f64 x = (if x \<ge> 0 then \<lfloor>x\<rfloor> else - \<lfloor>- x\<rfloor>)"

subsection \<open>OverallScore\<close>

definition OverallScore :: "ScoredRisk list \<Rightarrow> int" where
  "OverallScore risks =
     (if length risks = 0 then 0
      else
        (let total = foldl (\<lambda>total r. wrap64 (total + Score r)) 0 risks in
         int_of_f64
           (f64_add (f64_div (f64_of_int total) (f64_of_int (int (length risks)))) (1 / 2))))"

subsection \<open>FilterByTier\<close>

text \<open>The variadic \<open>tiers\<close> arrive as a slice; the loop first collects them into a set.\<close>

definition FilterByTier :: "ScoredRisk list \<Rightarrow> RiskTier list \<Rightarrow> ScoredRisk list" where
  "FilterByTier risks tiers = filter (\<lambda>r. Tier r \<in> set tiers) risks"

definition CriticalCount :: "ScoredRisk list \<Rightarrow> int" where
  "CriticalCount risks = int (length (filter (\<lambda>r. Tier r = TierWatch) risks))"

subsection \<open>Sample inputs\<close>

definition radio_AB :: RadioConfig where
  "radio_AB = \<lparr>Opts = [''A'', ''B''], PScores = [5, 8], IScores = [4, 9]\<rparr>"

definition text_10 :: TextConfig where
  "text_10 = \<lparr>Threshold = 10, PShort = 2, PLong = 6, IShort = 2, ILong = 8\<rparr>"

definition cfg_opt :: "int \<Rightarrow> int \<Rightarrow> RawMessage" where
  "cfg_opt p i = RawTyped ''radio'' (Some \<lparr>Opts = [''opt''], PScores = [p], IScores = [i]\<rparr>) None"

definition row_of :: "string \<Rightarrow> bool \<Rightarrow> RawMessage \<Rightarrow> AnswerRow" where
  "row_of q sc cfg =
     \<lparr>rowQuestionID = q, AnswerText = ''opt'', SectionTitle = [], rowRiskName = [],
      rowRiskDesc = [], rowHedge = [], rowScoringConfig = cfg, IsScoring = sc\<rparr>"

definition risk_of :: "string \<Rightarrow> int \<Rightarrow> int \<Rightarrow> int \<Rightarrow> RiskTier \<Rightarrow> ScoredRisk" where
  "risk_of q rk p i t =
     \<lparr>QuestionID = q, Rank = rk, RiskName = [], RiskDesc = [], Hedge = [], Section = [],
      P = p, I = i, Score = p * i, Tier = t\<rparr>"

definition scores_of :: "int list \<Rightarrow> ScoredRisk list" where
  "scores_of xs = map (\<lambda>s. risk_of [] 0 s 1 TierIgnore) xs"

section \<open>Hedging client with fallback (internal/ai)\<close>

text \<open>
  \<^verbatim>\<open>HedgeResult.Hedges\<close> is a Go map from question identifier to narrative.  It is kept as an
  association list with distinct keys, in the order in which a \<^verbatim>\<open>range\<close> loop happens to
  visit it; the nil map is the empty list.
\<close>

record HedgeResult =
  Hedges :: "(string \<times> string) list"
  ExecutiveSummary :: string
  TopPriorityHTML :: string

definition HedgeResult_zero :: HedgeResult where
  "HedgeResult_zero = \<lparr>Hedges = [], ExecutiveSummary = [], TopPriorityHTML = []\<rparr>"

text \<open>
  A value of the interface type \<^verbatim>\<open>Hedger\<close> is nil (\<open>None\<close>) or an implementation, which maps
  the risks it is given to the outcome of its \<^verbatim>\<open>GenerateHedges\<close>.  What a composite hedger
  does to its parts is recorded as a list of events, in order.
\<close>

type_synonym Hedger = "ScoredRisk list \<Rightarrow> HedgeResult result"

datatype hedge_event = CallPrimary | CallSecondary | LogWarn

record fallbackHedger =
  primary :: "Hedger option"
  secondary :: "Hedger option"
  logger :: "unit option"

definition NewFallbackHedger ::
  "Hedger option \<Rightarrow> Hedger option \<Rightarrow> unit option \<Rightarrow> fallbackHedger" where
  "NewFallbackHedger p s l = \<lparr>primary = p, secondary = s, logger = l\<rparr>"

text \<open>
  \<^verbatim>\<open>fallbackHedger.GenerateHedges\<close>.  Calling a method on a nil interface value panics, and so
  does \<^verbatim>\<open>Warn\<close> on a nil \<^verbatim>\<open>*slog.Logger\<close>.
\<close>

definition GenerateHedges ::
  "fallbackHedger \<Rightarrow> ScoredRisk list \<Rightarrow> HedgeResult result \<times> hedge_event list" where
  "GenerateHedges f risks =
     (case primary f of
        Some p \<Rightarrow>
          (case p risks of
             Ok res \<Rightarrow> (Ok res, [CallPrimary])
           | Panic \<Rightarrow> (Panic, [CallPrimary])
           | Failed err \<Rightarrow>
               (case logger f of
                  None \<Rightarrow> (Panic, [CallPrimary])
                | Some _ \<Rightarrow>
                    (case secondary f of
                       None \<Rightarrow>
                         (Failed (Wrapf ''ai: primary failed and no secondary configured: '' err []),
                          [CallPrimary, LogWarn])
                     | Some s \<Rightarrow> (s risks, [CallPrimary, LogWarn, CallSecondary]))))
      | None \<Rightarrow>
          (case secondary f of
             None \<Rightarrow> (Panic, [])
           | Some s \<Rightarrow> (s risks, [CallSecondary])))"

text \<open>
  Step 5 of \<^verbatim>\<open>Job.Run\<close>: the watch and red risks go to the job's hedger, unless there are
  none; a failure of the hedger is logged and replaced by the zero \<^verbatim>\<open>HedgeResult\<close>.  The
  job's hedger is any implementation of the interface, given with the events it causes.
\<close>

definition Run_generate_hedges ::
  "(ScoredRisk list \<Rightarrow> HedgeResult result \<times> hedge_event list) \<Rightarrow> ScoredRisk list
     \<Rightarrow> HedgeResult result \<times> hedge_event list" where
  "Run_generate_hedges hedger risks =
     (let priorityRisks = FilterByTier risks [TierWatch, TierRed] in
      if length priorityRisks > 0 then
        (case hedger priorityRisks of
           (Ok res, evs) \<Rightarrow> (Ok res, evs)
         | (Failed err, evs) \<Rightarrow> (Ok HedgeResult_zero, evs)
         | (Panic, evs) \<Rightarrow> (Panic, evs))
      else (Ok HedgeResult_zero, []))"

text \<open>The stub of the package's tests: it returns its canned result whatever the risks.\<close>

definition stubHedger :: "HedgeResult result \<Rightarrow> Hedger" where
  "stubHedger res = (\<lambda>risks. res)"

definition summary_only :: "string \<Rightarrow> HedgeResult" where
  "summary_only s = \<lparr>Hedges = [], ExecutiveSummary = s, TopPriorityHTML = []\<rparr>"

section \<open>Runner (internal/worker/runner.go)\<close>











section \<open>Database (sql/schema.sql and the sqlc queries)\<close>

text \<open>
  The store talks to PostgreSQL through the generated \<^verbatim>\<open>db.Querier\<close>.  The database is a record
  of the tables the store operations touch, with the columns they read or write; a UUID is a
  natural number and a nullable column an \<open>option\<close>, which is also how \<^verbatim>\<open>sql.NullString\<close> and
  \<^verbatim>\<open>sql.NullInt16\<close> are read (\<open>None\<close> when \<^verbatim>\<open>Valid\<close> is false).  Each query is a function from
  the state to an error or to the new state and the returned row, written from its SQL text
  and from the constraints of the schema.  Transactions run one after the other.
\<close>

type_synonym uuid = nat

datatype payment_status = PaymentPending | PaymentPaid | PaymentFailed | PaymentRefunded

record Session =
  SessionID :: uuid
  AnonToken :: string
  Email :: "string option"
  StripeCustomerID :: "string option"
  StripePaymentIntent :: "string option"
  PaymentStatus :: payment_status
  PaidAt :: "nat option"
  SessionUpdatedAt :: nat

datatype report_status = StatusDraft | StatusProcessing | StatusReady | StatusError

record Report =
  ReportID :: uuid
  ReportSessionID :: uuid
  Status :: report_status
  ErrorMessage :: "string option"
  ReportOverallScore :: "int option"
  ReportCriticalCount :: "int option"
  RisksJson :: "ScoredRisk list option"
  ReportExecutiveSummary :: "string option"
  TopPriorityHtml :: "string option"
  AccessToken :: nat
  GeneratedAt :: "nat option"
  ReportUpdatedAt :: nat

record RiskResult =
  ResultID :: uuid
  ResultReportID :: uuid
  ResultQuestionID :: string
  ResultRank :: int
  ResultRiskName :: string
  ResultRiskDesc :: string
  Probability :: int
  Impact :: int
  ResultScore :: int
  ResultTier :: RiskTier
  ResultHedge :: string
  AiHedge :: "string option"
  ResultSection :: string

text \<open>
  \<open>question_ids\<close> are the primary keys of \<^verbatim>\<open>question_definitions\<close>, and \<open>now\<close> is the reading of
  the database clock.
\<close>

record DB =
  sessions :: "Session list"
  reports :: "Report list"
  risk_results :: "RiskResult list"
  question_ids :: "string list"
  now :: nat

text \<open>The zero values \<^verbatim>\<open>db.Session{}\<close> and \<^verbatim>\<open>db.Report{}\<close>.\<close>

definition Session_zero :: Session where
  "Session_zero =
     \<lparr>SessionID = 0, AnonToken = [], Email = None, StripeCustomerID = None,
      StripePaymentIntent = None, PaymentStatus = PaymentPending, PaidAt = None,
      SessionUpdatedAt = 0\<rparr>"

definition Report_zero :: Report where
  "Report_zero =
     \<lparr>ReportID = 0, ReportSessionID = 0, Status = StatusDraft, ErrorMessage = None,
      ReportOverallScore = None, ReportCriticalCount = None, RisksJson = None,
      ReportExecutiveSummary = None, TopPriorityHtml = None, AccessToken = 0,
      GeneratedAt = None, ReportUpdatedAt = 0\<rparr>"

text \<open>
  Besides the errors PostgreSQL raises for the data, any statement can fail for reasons outside
  the data (a lost connection, a cancelled context).  \<open>faults\<close> lists the statements that fail
  in this way during a call.
\<close>

datatype statement =
    BeginTx | Commit | Rollback
  | QGetSessionByID | QAttachStripeCustomer | QMarkSessionPaid
  | QGetReportBySessionID | QCreateReport | QSetReportProcessing
  | QInsertRiskResult | QSetAIHedge | QFinalizeReport | QSetReportError

definition io_error :: error where
  "io_error = Err ''driver: bad connection''"

definition sql_ErrNoRows :: error where
  "sql_ErrNoRows = Err ''sql: no rows in result set''"

definition unique_violation :: error where
  "unique_violation = Err ''pq: duplicate key value violates unique constraint''"

definition foreign_key_violation :: error where
  "foreign_key_violation = Err ''pq: insert or update on table violates foreign key constraint''"

definition check_violation :: error where
  "check_violation = Err ''pq: new row for relation violates check constraint''"

text \<open>\<^verbatim>\<open>gen_random_uuid()\<close> and the random access token: a value no row of the table has yet.\<close>

definition fresh_id :: "nat list \<Rightarrow> nat" where
  "fresh_id ids = Suc (fold max ids 0)"

text \<open>The conversion \<^verbatim>\<open>int16(x)\<close> keeps the low sixteen bits.\<close>

definition int16 :: "int \<Rightarrow> int" where
  "int16 x = (x + 2 ^ 15) mod 2 ^ 16 - 2 ^ 15"

subsection \<open>Sessions\<close>

definition GetSessionByID :: "statement list \<Rightarrow> DB \<Rightarrow> uuid \<Rightarrow> error + Session" where
  "GetSessionByID faults db sid =
     (if QGetSessionByID \<in> set faults then Inl io_error
      else
        (case filter (\<lambda>s. SessionID s = sid) (sessions db) of
           [] \<Rightarrow> Inl sql_ErrNoRows
         | s # _ \<Rightarrow> Inr s))"

record AttachStripeCustomerParams =
  aID :: uuid
  aStripeCustomerID :: "string option"
  aStripePaymentIntent :: "string option"
  aEmail :: "string option"

text \<open>
  \<^verbatim>\<open>UPDATE sessions SET stripe_customer_id = $2, stripe_payment_intent = $3, email = $4
  WHERE id = $1 RETURNING *\<close>.  Both Stripe columns are \<^verbatim>\<open>UNIQUE\<close>: a value that is not null
  must not occur in another row.
\<close>

definition AttachStripeCustomer ::
  "statement list \<Rightarrow> DB \<Rightarrow> AttachStripeCustomerParams \<Rightarrow> error + (DB \<times> Session)" where
  "AttachStripeCustomer faults db arg =
     (if QAttachStripeCustomer \<in> set faults then Inl io_error
      else
        (let hit = (\<lambda>s. SessionID s = aID arg);
             others = filter (\<lambda>s. \<not> hit s) (sessions db);
             upd = (\<lambda>s. s\<lparr>StripeCustomerID := aStripeCustomerID arg,
                           StripePaymentIntent := aStripePaymentIntent arg,
                           Email := aEmail arg, SessionUpdatedAt := now db\<rparr>)
         in case filter hit (sessions db) of
              [] \<Rightarrow> Inl sql_ErrNoRows
            | s # _ \<Rightarrow>
                if (aStripeCustomerID arg \<noteq> None
                      \<and> aStripeCustomerID arg \<in> set (map StripeCustomerID others))
                   \<or> (aStripePaymentIntent arg \<noteq> None
                      \<and> aStripePaymentIntent arg \<in> set (map StripePaymentIntent others))
                then Inl unique_violation
                else Inr (db\<lparr>sessions := map (\<lambda>s. if hit s then upd s else s) (sessions db)\<rparr>,
                          upd s)))"

text \<open>
  \<^verbatim>\<open>UPDATE sessions SET payment_status = 'paid', paid_at = now()
  WHERE stripe_payment_intent = $1 RETURNING *\<close>; a null parameter matches no row.
\<close>

definition MarkSessionPaid ::
  "statement list \<Rightarrow> DB \<Rightarrow> string option \<Rightarrow> error + (DB \<times> Session)" where
  "MarkSessionPaid faults db intent =
     (if QMarkSessionPaid \<in> set faults then Inl io_error
      else
        (let hit = (\<lambda>s. intent \<noteq> None \<and> StripePaymentIntent s = intent);
             upd = (\<lambda>s. s\<lparr>PaymentStatus := PaymentPaid, PaidAt := Some (now db),
                           SessionUpdatedAt := now db\<rparr>)
         in case filter hit (sessions db) of
              [] \<Rightarrow> Inl sql_ErrNoRows
            | s # _ \<Rightarrow>
                Inr (db\<lparr>sessions := map (\<lambda>s. if hit s then upd s else s) (sessions db)\<rparr>,
                     upd s)))"

subsection \<open>Reports\<close>

definition GetReportBySessionID :: "statement list \<Rightarrow> DB \<Rightarrow> uuid \<Rightarrow> error + Report" where
  "GetReportBySessionID faults db sid =
     (if QGetReportBySessionID \<in> set faults then Inl io_error
      else
        (case filter (\<lambda>r. ReportSessionID r = sid) (reports db) of
           [] \<Rightarrow> Inl sql_ErrNoRows
         | r # _ \<Rightarrow> Inr r))"

text \<open>
  \<^verbatim>\<open>INSERT INTO reports (session_id) VALUES ($1) RETURNING *\<close>.  \<^verbatim>\<open>session_id\<close> references
  \<^verbatim>\<open>sessions\<close> and is \<^verbatim>\<open>UNIQUE\<close>; the other columns take their defaults.
\<close>

definition CreateReport :: "statement list \<Rightarrow> DB \<Rightarrow> uuid \<Rightarrow> error + (DB \<times> Report)" where
  "CreateReport faults db sid =
     (if QCreateReport \<in> set faults then Inl io_error
      else if sid \<notin> set (map SessionID (sessions db)) then Inl foreign_key_violation
      else if sid \<in> set (map ReportSessionID (reports db)) then Inl unique_violation
      else
        (let r = \<lparr>ReportID = fresh_id (map ReportID (reports db)), ReportSessionID = sid,
                  Status = StatusDraft, ErrorMessage = None, ReportOverallScore = None,
                  ReportCriticalCount = Some 0, RisksJson = None,
                  ReportExecutiveSummary = None, TopPriorityHtml = None,
                  AccessToken = fresh_id (map AccessToken (reports db)),
                  GeneratedAt = None, ReportUpdatedAt = now db\<rparr>
         in Inr (db\<lparr>reports := reports db @ [r]\<rparr>, r)))"

text \<open>The three \<^verbatim>\<open>UPDATE reports \<dots> WHERE id = $1 RETURNING *\<close> statements.\<close>

definition update_report ::
  "DB \<Rightarrow> uuid \<Rightarrow> (Report \<Rightarrow> Report) \<Rightarrow> error + (DB \<times> Report)" where
  "update_report db rid upd =
     (let hit = (\<lambda>r. ReportID r = rid);
          upd' = (\<lambda>r. (upd r)\<lparr>ReportUpdatedAt := now db\<rparr>)
      in case filter hit (reports db) of
           [] \<Rightarrow> Inl sql_ErrNoRows
         | r # _ \<Rightarrow>
             Inr (db\<lparr>reports := map (\<lambda>r. if hit r then upd' r else r) (reports db)\<rparr>, upd' r))"

definition SetReportProcessing :: "statement list \<Rightarrow> DB \<Rightarrow> uuid \<Rightarrow> error + (DB \<times> Report)" where
  "SetReportProcessing faults db rid =
     (if QSetReportProcessing \<in> set faults then Inl io_error
      else update_report db rid (\<lambda>r. r\<lparr>Status := StatusProcessing\<rparr>))"

record FinalizeReportParams =
  fID :: uuid
  fOverallScore :: "int option"
  fCriticalCount :: "int option"
  fRisksJson :: "ScoredRisk list option"
  fExecutiveSummary :: "string option"
  fTopPriorityHtml :: "string option"

text \<open>\<^verbatim>\<open>overall_score\<close> carries \<^verbatim>\<open>CHECK (overall_score BETWEEN 0 AND 100)\<close>.\<close>

definition FinalizeReport ::
  "statement list \<Rightarrow> DB \<Rightarrow> FinalizeReportParams \<Rightarrow> error + (DB \<times> Report)" where
  "FinalizeReport faults db arg =
     (if QFinalizeReport \<in> set faults then Inl io_error
      else if filter (\<lambda>r. ReportID r = fID arg) (reports db) \<noteq> []
              \<and> (case fOverallScore arg of None \<Rightarrow> False | Some v \<Rightarrow> v < 0 \<or> v > 100)
      then Inl check_violation
      else update_report db (fID arg)
             (\<lambda>r. r\<lparr>Status := StatusReady, ReportOverallScore := fOverallScore arg,
                     ReportCriticalCount := fCriticalCount arg, RisksJson := fRisksJson arg,
                     ReportExecutiveSummary := fExecutiveSummary arg,
                     TopPriorityHtml := fTopPriorityHtml arg, GeneratedAt := Some (now db)\<rparr>))"

definition SetReportError ::
  "statement list \<Rightarrow> DB \<Rightarrow> uuid \<Rightarrow> string option \<Rightarrow> error + (DB \<times> Report)" where
  "SetReportError faults db rid msg =
     (if QSetReportError \<in> set faults then Inl io_error
      else update_report db rid (\<lambda>r. r\<lparr>Status := StatusError, ErrorMessage := msg\<rparr>))"

subsection \<open>Risk results\<close>

text \<open>
  \<^verbatim>\<open>INSERT INTO risk_results (\<dots>) VALUES (\<dots>) RETURNING *\<close>.  The row must reference a report
  and a question definition, probability and impact must lie between 1 and 10, and the pair
  of report and question must be new; \<^verbatim>\<open>ai_hedge\<close> starts null.  The argument is the row to
  insert, its \<open>ResultID\<close> and \<open>AiHedge\<close> being ignored.
\<close>

definition InsertRiskResult ::
  "statement list \<Rightarrow> DB \<Rightarrow> RiskResult \<Rightarrow> error + (DB \<times> RiskResult)" where
  "InsertRiskResult faults db arg =
     (if QInsertRiskResult \<in> set faults then Inl io_error
      else if Probability arg < 1 \<or> Probability arg > 10 \<or> Impact arg < 1 \<or> Impact arg > 10
      then Inl check_violation
      else if list_ex (\<lambda>x. ResultReportID x = ResultReportID arg
                            \<and> ResultQuestionID x = ResultQuestionID arg) (risk_results db)
      then Inl unique_violation
      else if ResultReportID arg \<notin> set (map ReportID (reports db))
              \<or> ResultQuestionID arg \<notin> set (question_ids db)
      then Inl foreign_key_violation
      else
        (let row = arg\<lparr>ResultID := fresh_id (map ResultID (risk_results db)), AiHedge := None\<rparr>
         in Inr (db\<lparr>risk_results := risk_results db @ [row]\<rparr>, row)))"

text \<open>\<^verbatim>\<open>UPDATE risk_results SET ai_hedge = $2 WHERE id = $1 RETURNING *\<close>.\<close>

definition SetAIHedge ::
  "statement list \<Rightarrow> DB \<Rightarrow> uuid \<Rightarrow> string option \<Rightarrow> error + (DB \<times> RiskResult)" where
  "SetAIHedge faults db rowID aiHedge =
     (if QSetAIHedge \<in> set faults then Inl io_error
      else
        (let hit = (\<lambda>x. ResultID x = rowID);
             upd = (\<lambda>x. x\<lparr>AiHedge := aiHedge\<rparr>)
         in case filter hit (risk_results db) of
              [] \<Rightarrow> Inl sql_ErrNoRows
            | x # _ \<Rightarrow>
                Inr (db\<lparr>risk_results := map (\<lambda>x. if hit x then upd x else x) (risk_results db)\<rparr>,
                     upd x)))"

section \<open>Transactional store (internal/store)\<close>

text \<open>
  \<^verbatim>\<open>withTx\<close> begins a transaction, runs \<open>fn\<close> on it, and commits when \<open>fn\<close> returns nil or rolls
  back when it returns an error.  \<open>fn\<close> is a closure that assigns to a variable of the calling
  method; here it returns the state of the transaction, the value of that variable and its
  error, and \<open>c0\<close> is what the variable holds before the call.  After a rollback, and after a
  commit that failed, the database is what it was before the transaction.
\<close>

definition withTx ::
  "statement list \<Rightarrow> DB \<Rightarrow> 'c \<Rightarrow> (DB \<Rightarrow> DB \<times> 'c \<times> error option) \<Rightarrow> DB \<times> 'c \<times> error option" where
  "withTx faults db c0 fn =
     (if BeginTx \<in> set faults
      then (db, c0, Some (Wrapf ''store: begin transaction: '' io_error []))
      else
        (case fn db of
           (tx, c, Some err) \<Rightarrow>
             if Rollback \<in> set faults
             then (db, c, Some (Wrapf ''store: fn error: '' err
                                  (''; rollback error: '' @ Error_msg io_error)))
             else (db, c, Some err)
         | (tx, c, None) \<Rightarrow>
             if Commit \<in> set faults
             then (db, c, Some (Wrapf ''store: commit transaction: '' io_error []))
             else (tx, c, None)))"

subsection \<open>AttachPaymentIntent (sessions.go)\<close>

record AttachPaymentIntentParams =
  pSessionID :: uuid
  pStripeCustomerID :: string
  pStripePaymentIntent :: string
  pEmail :: string

definition ErrPaymentIntentAlreadyAttached :: error where
  "ErrPaymentIntentAlreadyAttached = Err ''store: payment intent already attached to session''"

text \<open>\<^verbatim>\<open>sql.NullString{String: s, Valid: s != ""}\<close>.\<close>

definition null_if_empty :: "string \<Rightarrow> string option" where
  "null_if_empty s = (if s \<noteq> [] then Some s else None)"

definition AttachPaymentIntent_fn ::
  "statement list \<Rightarrow> AttachPaymentIntentParams \<Rightarrow> DB \<Rightarrow> DB \<times> Session \<times> error option" where
  "AttachPaymentIntent_fn faults p tx =
     (case GetSessionByID faults tx (pSessionID p) of
        Inl err \<Rightarrow> (tx, Session_zero, Some (Wrapf ''AttachPaymentIntent: get session: '' err []))
      | Inr existing \<Rightarrow>
          if (case StripePaymentIntent existing of None \<Rightarrow> False | Some s \<Rightarrow> s \<noteq> [])
          then (tx, existing, Some ErrPaymentIntentAlreadyAttached)
          else
            (case AttachStripeCustomer faults tx
                    \<lparr>aID = pSessionID p,
                     aStripeCustomerID = null_if_empty (pStripeCustomerID p),
                     aStripePaymentIntent = Some (pStripePaymentIntent p),
                     aEmail = null_if_empty (pEmail p)\<rparr> of
               Inl err \<Rightarrow>
                 (tx, Session_zero,
                  Some (Wrapf ''AttachPaymentIntent: attach stripe customer: '' err []))
             | Inr (tx', updated) \<Rightarrow> (tx', updated, None)))"

definition AttachPaymentIntent ::
  "statement list \<Rightarrow> DB \<Rightarrow> AttachPaymentIntentParams \<Rightarrow> DB \<times> Session \<times> error option" where
  "AttachPaymentIntent faults db p =
     (case withTx faults db Session_zero (AttachPaymentIntent_fn faults p) of
        (db', session, Some err) \<Rightarrow>
          if errors_Is err ErrPaymentIntentAlreadyAttached
          then (db', session, Some ErrPaymentIntentAlreadyAttached)
          else (db', Session_zero, Some err)
      | (db', session, None) \<Rightarrow> (db', session, None))"

subsection \<open>InitialiseReport (reports.go)\<close>

definition ErrReportAlreadyExists :: error where
  "ErrReportAlreadyExists = Err ''store: report already exists for session''"

definition InitialiseReport_fn ::
  "statement list \<Rightarrow> string \<Rightarrow> DB \<Rightarrow> DB \<times> Report \<times> error option" where
  "InitialiseReport_fn faults stripePaymentIntent tx =
     (case MarkSessionPaid faults tx (Some stripePaymentIntent) of
        Inl err \<Rightarrow> (tx, Report_zero, Some (Wrapf ''InitialiseReport: mark session paid: '' err []))
      | Inr (tx1, session) \<Rightarrow>
          (case GetReportBySessionID faults tx1 (SessionID session) of
             Inr existing \<Rightarrow> (tx1, existing, Some ErrReportAlreadyExists)
           | Inl err \<Rightarrow>
               if \<not> errors_Is err sql_ErrNoRows
               then (tx1, Report_zero,
                     Some (Wrapf ''InitialiseReport: check existing report: '' err []))
               else
                 (case CreateReport faults tx1 (SessionID session) of
                    Inl err' \<Rightarrow>
                      (tx1, Report_zero, Some (Wrapf ''InitialiseReport: create report: '' err' []))
                  | Inr (tx2, created) \<Rightarrow> (tx2, created, None))))"

definition InitialiseReport ::
  "statement list \<Rightarrow> DB \<Rightarrow> string \<Rightarrow> DB \<times> Report \<times> error option" where
  "InitialiseReport faults db stripePaymentIntent =
     (case withTx faults db Report_zero (InitialiseReport_fn faults stripePaymentIntent) of
        (db', report, Some err) \<Rightarrow>
          if errors_Is err ErrReportAlreadyExists
          then (db', report, Some ErrReportAlreadyExists)
          else (db', Report_zero, Some err)
      | (db', report, None) \<Rightarrow> (db', report, None))"

subsection \<open>PersistScoredReport (reports.go)\<close>

text \<open>
  \<open>AIHedges\<close> is the Go map of the parameters, as an association list with distinct keys in
  the order in which the \<^verbatim>\<open>range\<close> loop visits it.
\<close>

record PersistScoredReportParams =
  pReportID :: uuid
  Risks :: "ScoredRisk list"
  AIHedges :: "(string \<times> string) list"
  pExecutiveSummary :: string
  pTopPriorityHTML :: string

definition risk_row :: "uuid \<Rightarrow> ScoredRisk \<Rightarrow> RiskResult" where
  "risk_row rid risk =
     \<lparr>ResultID = 0, ResultReportID = rid, ResultQuestionID = QuestionID risk,
      ResultRank = int16 (Rank risk), ResultRiskName = RiskName risk,
      ResultRiskDesc = RiskDesc risk, Probability = int16 (P risk), Impact = int16 (I risk),
      ResultScore = int16 (Score risk), ResultTier = Tier risk, ResultHedge = Hedge risk,
      AiHedge = None, ResultSection = Section risk\<rparr>"

text \<open>Step 2: the loop over the risks; \<open>resultIDs\<close> maps a question to the id of its row.\<close>

fun insert_risks ::
  "statement list \<Rightarrow> uuid \<Rightarrow> DB \<Rightarrow> (string \<rightharpoonup> uuid) \<Rightarrow> ScoredRisk list
     \<Rightarrow> error + (DB \<times> (string \<rightharpoonup> uuid))" where
  "insert_risks faults rid tx resultIDs [] = Inr (tx, resultIDs)"
| "insert_risks faults rid tx resultIDs (risk # risks) =
     (case InsertRiskResult faults tx (risk_row rid risk) of
        Inl err \<Rightarrow>
          Inl (Wrapf (''PersistScoredReport: insert risk '' @ QuestionID risk @ '': '') err [])
      | Inr (tx', row) \<Rightarrow>
          insert_risks faults rid tx' (resultIDs(QuestionID risk \<mapsto> ResultID row)) risks)"

text \<open>Step 3: the loop over the AI hedges.\<close>

fun apply_hedges ::
  "statement list \<Rightarrow> DB \<Rightarrow> (string \<rightharpoonup> uuid) \<Rightarrow> (string \<times> string) list \<Rightarrow> error + DB" where
  "apply_hedges faults tx resultIDs [] = Inr tx"
| "apply_hedges faults tx resultIDs ((questionID, aiHedge) # rest) =
     (case resultIDs questionID of
        None \<Rightarrow> apply_hedges faults tx resultIDs rest
      | Some rowID \<Rightarrow>
          if aiHedge = [] then apply_hedges faults tx resultIDs rest
          else
            (case SetAIHedge faults tx rowID (Some aiHedge) of
               Inl err \<Rightarrow>
                 Inl (Wrapf (''PersistScoredReport: set AI hedge for '' @ questionID @ '': '') err [])
             | Inr (tx', row) \<Rightarrow> apply_hedges faults tx' resultIDs rest))"

text \<open>
  Marshalling a slice of \<^verbatim>\<open>ScoredRisk\<close> to JSON cannot fail; the snapshot is kept as the list
  it encodes.
\<close>

definition PersistScoredReport_fn ::
  "statement list \<Rightarrow> PersistScoredReportParams \<Rightarrow> DB \<Rightarrow> DB \<times> Report \<times> error option" where
  "PersistScoredReport_fn faults p tx =
     (case SetReportProcessing faults tx (pReportID p) of
        Inl err \<Rightarrow> (tx, Report_zero, Some (Wrapf ''PersistScoredReport: set processing: '' err []))
      | Inr (tx1, claimed) \<Rightarrow>
          (case insert_risks faults (pReportID p) tx1 Map.empty (Risks p) of
             Inl err \<Rightarrow> (tx1, Report_zero, Some err)
           | Inr (tx2, resultIDs) \<Rightarrow>
               (case apply_hedges faults tx2 resultIDs (AIHedges p) of
                  Inl err \<Rightarrow> (tx2, Report_zero, Some err)
                | Inr tx3 \<Rightarrow>
                    (let overallScore = OverallScore (Risks p);
                         criticalCount = CriticalCount (Risks p)
                     in case FinalizeReport faults tx3
                               \<lparr>fID = pReportID p,
                                fOverallScore = Some (int16 overallScore),
                                fCriticalCount = Some (int16 criticalCount),
                                fRisksJson = Some (Risks p),
                                fExecutiveSummary = null_if_empty (pExecutiveSummary p),
                                fTopPriorityHtml = null_if_empty (pTopPriorityHTML p)\<rparr> of
                          Inl err \<Rightarrow>
                            (tx3, Report_zero,
                             Some (Wrapf ''PersistScoredReport: finalize report: '' err []))
                        | Inr (tx4, finalised) \<Rightarrow> (tx4, finalised, None)))))"

definition PersistScoredReport ::
  "statement list \<Rightarrow> DB \<Rightarrow> PersistScoredReportParams \<Rightarrow> DB \<times> Report \<times> error option" where
  "PersistScoredReport faults db p =
     (case withTx faults db Report_zero (PersistScoredReport_fn faults p) of
        (db', report, Some err) \<Rightarrow> (db', Report_zero, Some err)
      | (db', report, None) \<Rightarrow> (db', report, None))"

subsection \<open>MarkReportFailed (reports.go)\<close>

definition MarkReportFailed ::
  "statement list \<Rightarrow> DB \<Rightarrow> uuid \<Rightarrow> string \<Rightarrow> DB \<times> Report \<times> error option" where
  "MarkReportFailed faults db reportID reason =
     (case SetReportError faults db reportID (Some reason) of
        Inl err \<Rightarrow> (db, Report_zero, Some (Wrapf ''MarkReportFailed: '' err []))
      | Inr (db', report) \<Rightarrow> (db', report, None))"

subsection \<open>Sample database\<close>

definition session_1 :: Session where
  "session_1 =
     \<lparr>SessionID = 1, AnonToken = ''tok_1'', Email = None, StripeCustomerID = None,
      StripePaymentIntent = None, PaymentStatus = PaymentPending, PaidAt = None,
      SessionUpdatedAt = 0\<rparr>"

definition session_2 :: Session where
  "session_2 =
     \<lparr>SessionID = 2, AnonToken = ''tok_2'', Email = Some ''a@example.com'',
      StripeCustomerID = Some ''cus_A'', StripePaymentIntent = Some ''pi_A'',
      PaymentStatus = PaymentPending, PaidAt = None, SessionUpdatedAt = 0\<rparr>"

definition db_0 :: DB where
  "db_0 = \<lparr>sessions = [session_1, session_2], reports = [], risk_results = [],
           question_ids = [''q_a'', ''q_b'', ''q_c''], now = 7\<rparr>"

definition attach_params :: "uuid \<Rightarrow> AttachPaymentIntentParams" where
  "attach_params sid =
     \<lparr>pSessionID = sid, pStripeCustomerID = ''cus_B'', pStripePaymentIntent = ''pi_B'',
      pEmail = ''b@example.com''\<rparr>"

definition report_1 :: Report where
  "report_1 =
     \<lparr>ReportID = 1, ReportSessionID = 2, Status = StatusDraft, ErrorMessage = None,
      ReportOverallScore = None, ReportCriticalCount = Some 0, RisksJson = None,
      ReportExecutiveSummary = None, TopPriorityHtml = None, AccessToken = 1,
      GeneratedAt = None, ReportUpdatedAt = 7\<rparr>"

text \<open>\<open>db_0\<close> after the payment of session 2 has been confirmed.\<close>

definition db_1 :: DB where
  "db_1 =
     db_0\<lparr>sessions := [session_1, session_2\<lparr>PaymentStatus := PaymentPaid, PaidAt := Some 7,
                                             SessionUpdatedAt := 7\<rparr>],
          reports := [report_1]\<rparr>"

definition persist_params :: "(string \<times> string) list \<Rightarrow> PersistScoredReportParams" where
  "persist_params hedges =
     \<lparr>pReportID = 1,
      Risks = [risk_of ''q_a'' 1 9 9 TierWatch, risk_of ''q_b'' 2 5 6 TierIgnore],
      AIHedges = hedges, pExecutiveSummary = ''Summary'', pTopPriorityHTML = []\<rparr>"

subsection \<open>Reading the effect of PersistScoredReport\<close>

text \<open>The \<^verbatim>\<open>ai_hedge\<close> column of the result rows of a report for a question.\<close>

definition ai_hedge_of :: "DB \<Rightarrow> uuid \<Rightarrow> string \<Rightarrow> string option list" where
  "ai_hedge_of db rid q =
     map AiHedge
       (filter (\<lambda>x. ResultReportID x = rid \<and> ResultQuestionID x = q) (risk_results db))"

text \<open>
  What the map from questions to row ids promises after the inserts: the id of a question
  belongs to the rows of that question in the report and to no other row, and there is one
  such row.
\<close>

definition ids_point_to_rows :: "RiskResult list \<Rightarrow> (string \<rightharpoonup> uuid) \<Rightarrow> uuid \<Rightarrow> bool" where
  "ids_point_to_rows rows m rid \<longleftrightarrow>
     (\<forall>q rowID. m q = Some rowID \<longrightarrow>
        length (filter (\<lambda>x. ResultReportID x = rid \<and> ResultQuestionID x = q) rows) = 1
      \<and> (\<forall>x\<in>set rows. ResultID x = rowID \<longleftrightarrow> ResultReportID x = rid \<and> ResultQuestionID x = q))"

section \<open>Verification of the scoring engine\<close>

declare strip_all.simps [simp del]

lemma radio_loop_absent:
  "answer \<notin> set opts \<Longrightarrow> radio_loop rc idx opts answer = Ok (1, 1)"
  by (induction opts arbitrary: idx) auto

lemma radio_loop_first:
  "k < length opts \<Longrightarrow> opts ! k = answer \<Longrightarrow> \<forall>j<k. opts ! j \<noteq> answer \<Longrightarrow>
   idx + k < length (PScores rc) \<Longrightarrow> idx + k < length (IScores rc) \<Longrightarrow>
   radio_loop rc idx opts answer = Ok (clamp (PScores rc ! (idx + k)), clamp (IScores rc ! (idx + k)))"
proof (induction opts arbitrary: idx k)
  case Nil
  then show ?case by simp
next
  case (Cons opt opts)
  show ?case
  proof (cases k)
    case 0
    with Cons.prems show ?thesis by (simp add: go_index_def)
  next
    case (Suc k')
    from Cons.prems Suc have ne: "opt \<noteq> answer" by auto
    have "radio_loop rc (Suc idx) opts answer =
          Ok (clamp (PScores rc ! (Suc idx + k')), clamp (IScores rc ! (Suc idx + k')))"
      using Cons.prems Suc by (intro Cons.IH) auto
    with ne Suc show ?thesis by simp
  qed
qed

lemma radio_loop_no_panic:
  "idx + length opts \<le> length (PScores rc) \<Longrightarrow> idx + length opts \<le> length (IScores rc) \<Longrightarrow>
   \<exists>sc. radio_loop rc idx opts answer = Ok sc"
  by (induction opts arbitrary: idx) (auto simp: go_index_def)

lemma clamp_id: "\<not> score_out_of_range v \<Longrightarrow> clamp v = v"
  by (auto simp: clamp_def score_out_of_range_def)

lemma clamp_range: "1 \<le> clamp v \<and> clamp v \<le> 10"
  by (auto simp: clamp_def)

lemma Validate_radio_D:
  assumes "RadioConfig_Validate rc = None"
  shows "length (PScores rc) = length (Opts rc)" "length (IScores rc) = length (Opts rc)"
    "Opts rc \<noteq> []"
    "\<forall>v\<in>set (PScores rc). \<not> score_out_of_range v" "\<forall>v\<in>set (IScores rc). \<not> score_out_of_range v"
  using assms by (auto simp: RadioConfig_Validate_def Let_def list_ex_iff split: if_splits)

lemma Parse_radio:
  "RadioConfig_Validate rc = None \<Longrightarrow>
   ParseScoringConfig (RawTyped ''radio'' (Some rc) tc) = Ok \<lparr>radio = Some rc, text_cfg = None\<rparr>"
  by (simp add: ParseScoringConfig_def)

lemma Parse_text:
  "TextConfig_Validate c = None \<Longrightarrow>
   ParseScoringConfig (RawTyped ''text'' rc (Some c)) = Ok \<lparr>radio = None, text_cfg = Some c\<rparr>"
  by (simp add: ParseScoringConfig_def)

lemma Parse_Ok_cases:
  assumes "ParseScoringConfig raw = Ok cfg"
  shows "(\<exists>rc tc. raw = RawTyped ''radio'' (Some rc) tc \<and> RadioConfig_Validate rc = None
             \<and> cfg = \<lparr>radio = Some rc, text_cfg = None\<rparr>)
       \<or> (\<exists>rc c. raw = RawTyped ''text'' rc (Some c) \<and> TextConfig_Validate c = None
             \<and> cfg = \<lparr>radio = None, text_cfg = Some c\<rparr>)"
  using assms
  by (auto simp: ParseScoringConfig_def split: RawMessage.splits if_splits option.splits)

lemma Parse_no_panic: "ParseScoringConfig raw \<noteq> Panic"
  by (auto simp: ParseScoringConfig_def split: RawMessage.splits if_splits option.splits)

text \<open>
  Claim C4.  For a radio configuration that passes validation, \<open>ScoreAnswer\<close> returns \<open>(1, 1)\<close>
  when the trimmed answer is none of the options, and otherwise the probability and impact
  stored at the index of the first option equal to the trimmed answer; clamping leaves that
  pair unchanged and it lies in \<open>[1, 10]\<close>.  For a text configuration that passes validation
  it returns the long pair when the byte length of the trimmed answer is strictly greater than
  the threshold and the short pair otherwise, so a length equal to the threshold scores short.
\<close>

theorem ScoreAnswer_radio_text:
  "(RadioConfig_Validate rc = None \<longrightarrow>
      (TrimSpace answer \<notin> set (Opts rc) \<longrightarrow>
         ScoreAnswer (RawTyped ''radio'' (Some rc) tc0) answer = Ok (1, 1))
    \<and> (\<forall>k < length (Opts rc).
         Opts rc ! k = TrimSpace answer \<and> (\<forall>j<k. Opts rc ! j \<noteq> TrimSpace answer) \<longrightarrow>
         ScoreAnswer (RawTyped ''radio'' (Some rc) tc0) answer
           = Ok (clamp (PScores rc ! k), clamp (IScores rc ! k))
         \<and> clamp (PScores rc ! k) = PScores rc ! k \<and> clamp (IScores rc ! k) = IScores rc ! k
         \<and> 1 \<le> PScores rc ! k \<and> PScores rc ! k \<le> 10
         \<and> 1 \<le> IScores rc ! k \<and> IScores rc ! k \<le> 10))
   \<and> (TextConfig_Validate tc = None \<longrightarrow>
        ScoreAnswer (RawTyped ''text'' rc0 (Some tc)) answer
          = (if int (length (TrimSpace answer)) > Threshold tc
             then Ok (PLong tc, ILong tc) else Ok (PShort tc, IShort tc)))"
proof (intro conjI impI allI)
  assume v: "RadioConfig_Validate rc = None" and "TrimSpace answer \<notin> set (Opts rc)"
  then show "ScoreAnswer (RawTyped ''radio'' (Some rc) tc0) answer = Ok (1, 1)"
    by (simp add: ScoreAnswer_def Parse_radio radio_loop_absent)
next
  fix k
  assume v: "RadioConfig_Validate rc = None" and k: "k < length (Opts rc)"
    and m: "Opts rc ! k = TrimSpace answer \<and> (\<forall>j<k. Opts rc ! j \<noteq> TrimSpace answer)"
  note d = Validate_radio_D[OF v]
  have "radio_loop rc 0 (Opts rc) (TrimSpace answer)
        = Ok (clamp (PScores rc ! (0 + k)), clamp (IScores rc ! (0 + k)))"
    using k m d by (intro radio_loop_first) auto
  then show "ScoreAnswer (RawTyped ''radio'' (Some rc) tc0) answer
           = Ok (clamp (PScores rc ! k), clamp (IScores rc ! k))"
    using v by (simp add: ScoreAnswer_def Parse_radio)
  have p: "\<not> score_out_of_range (PScores rc ! k)" and i: "\<not> score_out_of_range (IScores rc ! k)"
    using d k by auto
  show "clamp (PScores rc ! k) = PScores rc ! k" "clamp (IScores rc ! k) = IScores rc ! k"
    using p i by (simp_all add: clamp_id)
  show "1 \<le> PScores rc ! k" "PScores rc ! k \<le> 10" "1 \<le> IScores rc ! k" "IScores rc ! k \<le> 10"
    using p i by (auto simp: score_out_of_range_def)
next
  assume v: "TextConfig_Validate tc = None"
  then have "\<not> score_out_of_range (PShort tc)" "\<not> score_out_of_range (PLong tc)"
    "\<not> score_out_of_range (IShort tc)" "\<not> score_out_of_range (ILong tc)"
    by (auto simp: TextConfig_Validate_def split: if_splits)
  then show "ScoreAnswer (RawTyped ''text'' rc0 (Some tc)) answer
          = (if int (length (TrimSpace answer)) > Threshold tc
             then Ok (PLong tc, ILong tc) else Ok (PShort tc, IShort tc))"
    using v by (simp add: ScoreAnswer_def Parse_text clamp_id)
qed

theorem ScoreAnswer_radio_text_witness:
  "RadioConfig_Validate radio_AB = None
   \<and> TrimSpace ''unknown'' \<notin> set (Opts radio_AB)
   \<and> ScoreAnswer (RawTyped ''radio'' (Some radio_AB) None) ''unknown'' = Ok (1, 1)
   \<and> (1::nat) < length (Opts radio_AB) \<and> Opts radio_AB ! 1 = TrimSpace ''  B  ''
   \<and> ScoreAnswer (RawTyped ''radio'' (Some radio_AB) None) ''  B  '' = Ok (8, 9)
   \<and> TextConfig_Validate text_10 = None
   \<and> ScoreAnswer (RawTyped ''text'' None (Some text_10)) ''0123456789'' = Ok (2, 2)"
proof -
  have t1: "TrimSpace ''unknown'' = ''unknown''" by code_simp
  have t2: "TrimSpace ''  B  '' = ''B''" by code_simp
  have t3: "TrimSpace ''0123456789'' = ''0123456789''" by code_simp
  have v1: "RadioConfig_Validate radio_AB = None"
    by (simp add: RadioConfig_Validate_def radio_AB_def score_out_of_range_def)
  have v2: "TextConfig_Validate text_10 = None"
    by (simp add: TextConfig_Validate_def text_10_def score_out_of_range_def)
  have n1: "TrimSpace ''unknown'' \<notin> set (Opts radio_AB)"
    by (simp add: t1 radio_AB_def)
  have k: "(1::nat) < length (Opts radio_AB)"
    by (simp add: radio_AB_def)
  have m: "Opts radio_AB ! 1 = TrimSpace ''  B  ''
           \<and> (\<forall>j<1. Opts radio_AB ! j \<noteq> TrimSpace ''  B  '')"
    by (simp add: t2 radio_AB_def)
  have a: "ScoreAnswer (RawTyped ''radio'' (Some radio_AB) None) ''unknown'' = Ok (1, 1)"
    using ScoreAnswer_radio_text [of radio_AB "''unknown''" None text_10 None] v1 n1 by blast
  have "ScoreAnswer (RawTyped ''radio'' (Some radio_AB) None) ''  B  ''
          = Ok (clamp (PScores radio_AB ! 1), clamp (IScores radio_AB ! 1))"
    using ScoreAnswer_radio_text [of radio_AB "''  B  ''" None text_10 None] v1 k m by blast
  then have b: "ScoreAnswer (RawTyped ''radio'' (Some radio_AB) None) ''  B  '' = Ok (8, 9)"
    by (simp add: radio_AB_def clamp_def)
  have "ScoreAnswer (RawTyped ''text'' None (Some text_10)) ''0123456789''
          = (if int (length (TrimSpace ''0123456789'')) > Threshold text_10
             then Ok (PLong text_10, ILong text_10) else Ok (PShort text_10, IShort text_10))"
    using ScoreAnswer_radio_text [of radio_AB "''0123456789''" None text_10 None] v2 by blast
  then have c: "ScoreAnswer (RawTyped ''text'' None (Some text_10)) ''0123456789'' = Ok (2, 2)"
    by (simp add: t3 text_10_def)
  show ?thesis using v1 v2 n1 k m a b c by simp
qed

lemma ScoreAnswer_Ok_of_Parse:
  assumes "ParseScoringConfig raw = Ok cfg"
  shows "\<exists>sc. ScoreAnswer raw answer = Ok sc"
  using Parse_Ok_cases[OF assms]
proof (elim disjE exE conjE)
  fix rc tc assume raw: "raw = RawTyped ''radio'' (Some rc) tc"
    and v: "RadioConfig_Validate rc = None" and "cfg = \<lparr>radio = Some rc, text_cfg = None\<rparr>"
  have "\<exists>sc. radio_loop rc 0 (Opts rc) (TrimSpace answer) = Ok sc"
    using Validate_radio_D(1,2)[OF v] by (intro radio_loop_no_panic) auto
  then show ?thesis using v raw by (auto simp: ScoreAnswer_def Parse_radio)
next
  fix rc c assume "raw = RawTyped ''text'' rc (Some c)" "TextConfig_Validate c = None"
  then show ?thesis by (simp add: ScoreAnswer_def Parse_text)
qed

lemma ScoreAnswer_Failed_of_Parse:
  "ParseScoringConfig raw = Failed e \<Longrightarrow> ScoreAnswer raw answer = Failed (Wrapf ''ScoreAnswer: '' e [])"
  by (simp add: ScoreAnswer_def)

lemma ScoreAnswer_no_panic: "ScoreAnswer raw answer \<noteq> Panic"
  using ScoreAnswer_Ok_of_Parse[of raw _ answer] ScoreAnswer_Failed_of_Parse[of raw _ answer]
    Parse_no_panic[of raw]
  by (cases "ParseScoringConfig raw") auto

lemma ScoreAnswer_Ok_iff_Parse:
  "(\<exists>sc. ScoreAnswer raw answer = Ok sc) \<longleftrightarrow> (\<exists>cfg. ParseScoringConfig raw = Ok cfg)"
  using ScoreAnswer_Ok_of_Parse[of raw _ answer] ScoreAnswer_Failed_of_Parse[of raw _ answer]
    Parse_no_panic[of raw]
  by (cases "ParseScoringConfig raw") auto

lemma score_rows_Ok_D:
  "score_rows rows acc = Ok risks \<Longrightarrow>
   \<exists>new. risks = acc @ new \<and> list_all2 row_scores_to (filter IsScoring rows) new"
proof (induction rows arbitrary: acc)
  case Nil
  then show ?case by simp
next
  case (Cons row rows)
  show ?case
  proof (cases "IsScoring row")
    case False
    with Cons show ?thesis by simp
  next
    case True
    with Cons.prems obtain p i where
      sa: "ScoreAnswer (rowScoringConfig row) (AnswerText row) = Ok (p, i)"
      and rest: "score_rows rows (acc @ [new_risk row p i]) = Ok risks"
      by (auto split: result.splits)
    from Cons.IH[OF rest] obtain new where
      "risks = (acc @ [new_risk row p i]) @ new"
      "list_all2 row_scores_to (filter IsScoring rows) new" by blast
    then have "risks = acc @ (new_risk row p i # new)"
      "list_all2 row_scores_to (filter IsScoring (row # rows)) (new_risk row p i # new)"
      using True sa by (simp_all add: row_scores_to_def)
    then show ?thesis by blast
  qed
qed

lemma score_rows_total:
  "\<forall>row\<in>set rows. IsScoring row \<longrightarrow> (\<exists>cfg. ParseScoringConfig (rowScoringConfig row) = Ok cfg) \<Longrightarrow>
   \<exists>risks. score_rows rows acc = Ok risks"
proof (induction rows arbitrary: acc)
  case Nil
  then show ?case by simp
next
  case (Cons row rows)
  show ?case
  proof (cases "IsScoring row")
    case False
    with Cons show ?thesis by simp
  next
    case True
    with Cons.prems obtain sc where "ScoreAnswer (rowScoringConfig row) (AnswerText row) = Ok sc"
      using ScoreAnswer_Ok_iff_Parse by fastforce
    moreover obtain p i where "sc = (p, i)" by (cases sc)
    moreover have "\<exists>risks. score_rows rows (acc @ [new_risk row p i]) = Ok risks"
      using Cons.prems by (intro Cons.IH) auto
    ultimately show ?thesis using True by simp
  qed
qed

lemma score_rows_fails:
  "\<exists>row\<in>set rows. IsScoring row \<and> (\<exists>e. ParseScoringConfig (rowScoringConfig row) = Failed e) \<Longrightarrow>
   \<exists>e. score_rows rows acc = Failed e"
proof (induction rows arbitrary: acc)
  case Nil
  then show ?case by simp
next
  case (Cons row rows)
  show ?case
  proof (cases "IsScoring row \<and> (\<exists>e. ParseScoringConfig (rowScoringConfig row) = Failed e)")
    case True
    then show ?thesis by (auto simp: ScoreAnswer_def)
  next
    case False
    with Cons.prems have
      "\<exists>row\<in>set rows. IsScoring row \<and> (\<exists>e. ParseScoringConfig (rowScoringConfig row) = Failed e)"
      by auto
    then have ih: "\<And>acc. \<exists>e. score_rows rows acc = Failed e" using Cons.IH by blast
    show ?thesis
      using ih ScoreAnswer_no_panic[of "rowScoringConfig row" "AnswerText row"]
      by (cases "ScoreAnswer (rowScoringConfig row) (AnswerText row)") auto
  qed
qed

lemma assign_ranks_length: "length (assign_ranks idx xs) = length xs"
  by (induction xs arbitrary: idx) auto

lemma assign_ranks_Rank:
  "map Rank (assign_ranks idx xs) = map (\<lambda>k. int k + 1) [idx ..< idx + length xs]"
proof (induction xs arbitrary: idx)
  case Nil
  then show ?case by simp
next
  case (Cons r rs)
  have "[idx ..< idx + length (r # rs)] = idx # [Suc idx ..< Suc idx + length rs]"
    by (simp add: upt_rec)
  then show ?case using Cons.IH[of "Suc idx"] by simp
qed

lemma assign_ranks_erase:
  "map (Rank_update (\<lambda>_. 0)) (assign_ranks idx xs) = map (Rank_update (\<lambda>_. 0)) xs"
  by (induction xs arbitrary: idx) auto

lemma assign_ranks_map:
  "(\<And>r v. f (r\<lparr>Rank := v\<rparr>) = f r) \<Longrightarrow> map f (assign_ranks idx xs) = map f xs"
  by (induction xs arbitrary: idx) auto

lemma not_risk_less_iff: "\<not> risk_less b a \<longleftrightarrow> key_le (risk_key a) (risk_key b)"
  by (auto simp: risk_less_def key_le_def risk_key_def)

lemma sorted_wrt_assign_ranks:
  "sorted_wrt (\<lambda>a b. key_le (risk_key a) (risk_key b)) (assign_ranks idx xs)
   = sorted_wrt (\<lambda>a b. key_le (risk_key a) (risk_key b)) xs"
proof -
  have "sorted_wrt (\<lambda>a b. key_le (risk_key a) (risk_key b)) ys = sorted_wrt key_le (map risk_key ys)" for ys
    by (simp add: sorted_wrt_map)
  moreover have "map risk_key (assign_ranks idx xs) = map risk_key xs"
    by (rule assign_ranks_map) (simp add: risk_key_def)
  ultimately show ?thesis by simp
qed

lemma mset_insert_by: "mset (insert_by lt x xs) = add_mset x (mset xs)"
  by (induction xs) auto

lemma set_insert_by: "set (insert_by lt x xs) = insert x (set xs)"
  by (induction xs) auto

lemma mset_sort_Slice: "mset (sort_Slice lt xs) = mset xs"
  by (induction xs) (auto simp: sort_Slice_def mset_insert_by)

lemma key_le_trans: "key_le a b \<Longrightarrow> key_le b c \<Longrightarrow> key_le a c"
  by (auto simp: key_le_def)

lemma key_le_total: "key_le a b \<or> key_le b a"
  by (auto simp: key_le_def)

lemma sorted_insert_by:
  "sorted_wrt (\<lambda>a b. \<not> risk_less b a) xs \<Longrightarrow> sorted_wrt (\<lambda>a b. \<not> risk_less b a) (insert_by risk_less x xs)"
proof (induction xs)
  case Nil
  then show ?case by simp
next
  case (Cons y ys)
  show ?case
  proof (cases "risk_less x y")
    case True
    then have xy: "key_le (risk_key x) (risk_key y)"
      by (auto simp: risk_less_def key_le_def risk_key_def split: if_splits)
    have "\<forall>z\<in>set ys. key_le (risk_key x) (risk_key z)"
      using Cons.prems xy by (auto simp: not_risk_less_iff intro: key_le_trans)
    then show ?thesis using True Cons.prems xy by (simp add: not_risk_less_iff)
  next
    case False
    then show ?thesis using Cons by (auto simp: set_insert_by)
  qed
qed

lemma sort_Slice_contract: "sort_contract sort_Slice"
proof -
  have "sorted_wrt (\<lambda>a b. \<not> risk_less b a) (sort_Slice risk_less xs)" for xs
    by (induction xs) (auto simp: sort_Slice_def intro: sorted_insert_by simp del: insert_by.simps)
  then show ?thesis by (simp add: sort_contract_def mset_sort_Slice)
qed

lemma row_scores_to_D: "row_scores_to row r \<Longrightarrow> Rank r = 0 \<and> Score r = P r * I r"
  by (auto simp: row_scores_to_def new_risk_def split: result.splits)

lemma list_all2_right_all: "list_all2 R xs ys \<Longrightarrow> (\<And>x y. R x y \<Longrightarrow> Q y) \<Longrightarrow> \<forall>y\<in>set ys. Q y"
  by (induction rule: list_all2_induct) auto

text \<open>
  Claim C5 (amended).  Let the sorting routine keep the contract of \<^verbatim>\<open>sort.Slice\<close>.  If the
  scoring configuration of every row flagged as scoring parses and validates, \<open>ComputeRisks\<close>
  returns a list that holds, up to the rank, exactly the risks scored from the rows flagged as
  scoring, each with score probability times impact; the list is sorted by descending score,
  equal scores by ascending question identifier, and the ranks are \<open>1, 2, \<dots>, n\<close>.  If the
  configuration of some row flagged as scoring fails to parse or validate, \<open>ComputeRisks\<close>
  returns an error.  Rows not flagged as scoring are skipped before their configuration is
  read.
\<close>

theorem ComputeRisks_sorted_ranked:
  assumes srt: "sort_contract srt"
  shows "((\<forall>row\<in>set rows. IsScoring row \<longrightarrow>
             (\<exists>cfg. ParseScoringConfig (rowScoringConfig row) = Ok cfg)) \<longrightarrow>
          (\<exists>risks unsorted.
             ComputeRisks srt rows = Ok risks
           \<and> list_all2 row_scores_to (filter IsScoring rows) unsorted
           \<and> mset (map (\<lambda>r. r\<lparr>Rank := 0\<rparr>) risks) = mset unsorted
           \<and> (\<forall>r\<in>set risks. Score r = P r * I r)
           \<and> sorted_wrt (\<lambda>a b. Score a > Score b
                              \<or> (Score a = Score b \<and> QuestionID a \<le> QuestionID b)) risks
           \<and> map Rank risks = map int [1 ..< Suc (length risks)]))
       \<and> ((\<exists>row\<in>set rows. IsScoring row \<and>
              (\<exists>e. ParseScoringConfig (rowScoringConfig row) = Failed e)) \<longrightarrow>
          (\<exists>e. ComputeRisks srt rows = Failed e))"
proof (intro conjI impI)
  assume ok: "\<forall>row\<in>set rows. IsScoring row \<longrightarrow>
             (\<exists>cfg. ParseScoringConfig (rowScoringConfig row) = Ok cfg)"
  from score_rows_total[OF ok] obtain unsorted where u: "score_rows rows [] = Ok unsorted"
    by blast
  from score_rows_Ok_D[OF u] have rel: "list_all2 row_scores_to (filter IsScoring rows) unsorted"
    by simp
  define sorted where "sorted = srt risk_less unsorted"
  define risks where "risks = assign_ranks 0 sorted"
  have cr: "ComputeRisks srt rows = Ok risks"
    by (simp add: ComputeRisks_def u risks_def sorted_def)
  have ms: "mset sorted = mset unsorted"
    and so: "sorted_wrt (\<lambda>a b. \<not> risk_less b a) sorted"
    using srt by (simp_all add: sort_contract_def sorted_def)
  have new: "\<forall>r\<in>set unsorted. Rank r = 0 \<and> Score r = P r * I r"
    using rel by (rule list_all2_right_all) (rule row_scores_to_D)
  have "map (\<lambda>r. r\<lparr>Rank := 0\<rparr>) unsorted = unsorted"
    using new by (intro map_idI) auto
  moreover have "mset (map (\<lambda>r. r\<lparr>Rank := 0\<rparr>) sorted) = mset (map (\<lambda>r. r\<lparr>Rank := 0\<rparr>) unsorted)"
    using ms by (metis mset_map)
  ultimately have m: "mset (map (\<lambda>r. r\<lparr>Rank := 0\<rparr>) risks) = mset unsorted"
    by (simp add: risks_def assign_ranks_erase)
  have "set sorted = set unsorted" using ms by (rule mset_eq_setD)
  then have "\<forall>r\<in>set sorted. Score r = P r * I r" using new by simp
  then have "\<forall>v\<in>set (map (\<lambda>r. Score r = P r * I r) sorted). v" by simp
  moreover have "map (\<lambda>r. Score r = P r * I r) risks = map (\<lambda>r. Score r = P r * I r) sorted"
    unfolding risks_def by (rule assign_ranks_map) simp
  ultimately have sc: "\<forall>r\<in>set risks. Score r = P r * I r"
    by (metis (mono_tags, lifting) image_eqI list.set_map)
  have "sorted_wrt (\<lambda>a b. key_le (risk_key a) (risk_key b)) risks"
    using so by (simp add: risks_def sorted_wrt_assign_ranks not_risk_less_iff)
  then have st: "sorted_wrt (\<lambda>a b. Score a > Score b
                              \<or> (Score a = Score b \<and> QuestionID a \<le> QuestionID b)) risks"
    by (simp add: key_le_def risk_key_def)
  have "map Rank risks = map (\<lambda>k. int k + 1) [0 ..< length risks]"
    using assign_ranks_Rank[of 0 sorted] by (simp add: risks_def assign_ranks_length)
  also have "\<dots> = map int [1 ..< Suc (length risks)]"
    by (simp add: map_Suc_upt[symmetric] del: upt_Suc)
  finally have rk: "map Rank risks = map int [1 ..< Suc (length risks)]" .
  show "\<exists>risks unsorted.
             ComputeRisks srt rows = Ok risks
           \<and> list_all2 row_scores_to (filter IsScoring rows) unsorted
           \<and> mset (map (\<lambda>r. r\<lparr>Rank := 0\<rparr>) risks) = mset unsorted
           \<and> (\<forall>r\<in>set risks. Score r = P r * I r)
           \<and> sorted_wrt (\<lambda>a b. Score a > Score b
                              \<or> (Score a = Score b \<and> QuestionID a \<le> QuestionID b)) risks
           \<and> map Rank risks = map int [1 ..< Suc (length risks)]"
    using cr rel m sc st rk by blast
next
  assume "\<exists>row\<in>set rows. IsScoring row \<and>
              (\<exists>e. ParseScoringConfig (rowScoringConfig row) = Failed e)"
  from score_rows_fails[OF this, of "[]"] obtain e where "score_rows rows [] = Failed e"
    by blast
  then show "\<exists>e. ComputeRisks srt rows = Failed e"
    by (simp add: ComputeRisks_def)
qed

theorem ComputeRisks_sorted_ranked_witness:
  "sort_contract sort_Slice
   \<and> (\<exists>risks.
         ComputeRisks sort_Slice
           [row_of ''q_low'' True (cfg_opt 3 3), row_of ''q_mid'' True (cfg_opt 5 6),
            row_of ''q_skip'' False RawMalformed, row_of ''q_a'' True (cfg_opt 6 5)] = Ok risks
       \<and> sorted_wrt (\<lambda>a b. Score a > Score b
                          \<or> (Score a = Score b \<and> QuestionID a \<le> QuestionID b)) risks
       \<and> map Rank risks = map int [1 ..< Suc (length risks)])
   \<and> ComputeRisks sort_Slice
        [row_of ''q_low'' True (cfg_opt 3 3), row_of ''q_mid'' True (cfg_opt 5 6),
         row_of ''q_skip'' False RawMalformed, row_of ''q_a'' True (cfg_opt 6 5)]
       = Ok [risk_of ''q_a'' 1 6 5 TierManage, risk_of ''q_mid'' 2 5 6 TierIgnore,
             risk_of ''q_low'' 3 3 3 TierIgnore]
   \<and> (\<exists>e. ComputeRisks sort_Slice [row_of ''q_bad'' True RawMalformed] = Failed e)"
proof -
  have c: "sort_contract sort_Slice" by (rule sort_Slice_contract)
  have h: "\<forall>row\<in>set [row_of ''q_low'' True (cfg_opt 3 3), row_of ''q_mid'' True (cfg_opt 5 6),
                   row_of ''q_skip'' False RawMalformed, row_of ''q_a'' True (cfg_opt 6 5)].
         IsScoring row \<longrightarrow> (\<exists>cfg. ParseScoringConfig (rowScoringConfig row) = Ok cfg)"
    by (simp add: row_of_def cfg_opt_def ParseScoringConfig_def RadioConfig_Validate_def
        score_out_of_range_def)
  have ok: "\<exists>risks.
         ComputeRisks sort_Slice
           [row_of ''q_low'' True (cfg_opt 3 3), row_of ''q_mid'' True (cfg_opt 5 6),
            row_of ''q_skip'' False RawMalformed, row_of ''q_a'' True (cfg_opt 6 5)] = Ok risks
       \<and> sorted_wrt (\<lambda>a b. Score a > Score b
                          \<or> (Score a = Score b \<and> QuestionID a \<le> QuestionID b)) risks
       \<and> map Rank risks = map int [1 ..< Suc (length risks)]"
    using ComputeRisks_sorted_ranked [OF c,
        of "[row_of ''q_low'' True (cfg_opt 3 3), row_of ''q_mid'' True (cfg_opt 5 6),
             row_of ''q_skip'' False RawMalformed, row_of ''q_a'' True (cfg_opt 6 5)]"] h
    by blast
  have bad: "\<exists>e. ComputeRisks sort_Slice [row_of ''q_bad'' True RawMalformed] = Failed e"
    using ComputeRisks_sorted_ranked [OF c, of "[row_of ''q_bad'' True RawMalformed]"]
    by (simp add: row_of_def ParseScoringConfig_def)
  have val: "ComputeRisks sort_Slice
        [row_of ''q_low'' True (cfg_opt 3 3), row_of ''q_mid'' True (cfg_opt 5 6),
         row_of ''q_skip'' False RawMalformed, row_of ''q_a'' True (cfg_opt 6 5)]
       = Ok [risk_of ''q_a'' 1 6 5 TierManage, risk_of ''q_mid'' 2 5 6 TierIgnore,
             risk_of ''q_low'' 3 3 3 TierIgnore]"
    by code_simp
  show ?thesis using c ok bad val by blast
qed

text \<open>
  As first stated the claim also promises an error when the configuration of any row fails to
  parse.  A row that is not flagged as scoring is skipped, whatever its configuration.
\<close>

theorem ComputeRisks_nonscoring_bad_config:
  "ParseScoringConfig (rowScoringConfig (row_of ''q_skip'' False RawMalformed))
     = Failed (Err ''scoring config: cannot read type field'')
   \<and> ComputeRisks sort_Slice [row_of ''q_skip'' False RawMalformed] = Ok []"
  by (simp add: ComputeRisks_def row_of_def sort_Slice_def ParseScoringConfig_def)

section \<open>Verification of OverallScore\<close>

lemma powi2_less_D: "(2::rat) powi a < 2 powi b \<Longrightarrow> a < b"
proof (rule ccontr)
  assume l: "(2::rat) powi a < 2 powi b" and "\<not> a < b"
  then have "b \<le> a" by simp
  then have "(2::rat) powi b \<le> 2 powi a" by (intro power_int_increasing) auto
  with l show False by simp
qed

lemma floor_le_round_even: "\<lfloor>x\<rfloor> \<le> round_even x"
  by (simp add: round_even_def Let_def)

lemma round_even_ge: "of_int k \<le> x \<Longrightarrow> k \<le> round_even x"
proof -
  assume "of_int k \<le> x"
  then have "k \<le> \<lfloor>x\<rfloor>" by (simp add: le_floor_iff)
  then show ?thesis using floor_le_round_even[of x] by linarith
qed

lemma round_even_le: "x \<le> of_int k \<Longrightarrow> round_even x \<le> k"
proof -
  assume a: "x \<le> of_int k"
  have "of_int \<lfloor>x\<rfloor> \<le> x" by simp
  then have "(of_int \<lfloor>x\<rfloor> :: rat) \<le> of_int k" using a by (rule order_trans)
  then have f: "\<lfloor>x\<rfloor> \<le> k" by simp
  show ?thesis
  proof (cases "\<lfloor>x\<rfloor> = k")
    case True
    then have "x = of_int k" using a by (metis of_int_floor_le order_antisym)
    then show ?thesis by (simp add: round_even_def)
  next
    case False
    then have "\<lfloor>x\<rfloor> + 1 \<le> k" using f by simp
    then show ?thesis using f by (auto simp: round_even_def Let_def)
  qed
qed

text \<open>\<open>floor_log2\<close> is the binary exponent.\<close>

lemma floor_log2_bounds:
  assumes "0 < x"
  shows "2 powi (floor_log2 x) \<le> x \<and> x < 2 powi (floor_log2 x + 1)"
proof -
  obtain p q where pq: "quotient_of x = (p, q)" by (cases "quotient_of x")
  have q: "q > 0" using quotient_of_denom_pos[OF pq] .
  have x: "x = of_int p / of_int q" using quotient_of_div[OF pq] .
  from assms x q have p: "p > 0" by (simp add: zero_less_divide_iff)
  define d where "d = bitlen p - bitlen q"
  have fl: "floor_log2 x = (if 2 powi d \<le> x then d else d - 1)"
    by (simp add: floor_log2_def pq d_def)
  have bp: "2 ^ nat (bitlen p - 1) \<le> p" "p < 2 ^ nat (bitlen p)"
    and bq: "2 ^ nat (bitlen q - 1) \<le> q" "q < 2 ^ nat (bitlen q)"
    using bitlen_bounds[OF p] bitlen_bounds[OF q] by simp_all
  have bp1: "bitlen p \<ge> 1" and bq1: "bitlen q \<ge> 1"
    using p q by (auto simp: bitlen_alt_def)
  have "(of_int (2 ^ nat (bitlen p - 1)) :: rat) \<le> of_int p"
    using bp(1) by (simp only: of_int_le_iff)
  then have lp: "(2::rat) powi (bitlen p - 1) \<le> of_int p"
    using bp1 by (simp add: power_int_def)
  have "(of_int p :: rat) < of_int (2 ^ nat (bitlen p))"
    using bp(2) by (simp only: of_int_less_iff)
  then have up: "(of_int p :: rat) < 2 powi (bitlen p)"
    using bp1 by (simp add: power_int_def)
  have "(of_int (2 ^ nat (bitlen q - 1)) :: rat) \<le> of_int q"
    using bq(1) by (simp only: of_int_le_iff)
  then have lq: "(2::rat) powi (bitlen q - 1) \<le> of_int q"
    using bq1 by (simp add: power_int_def)
  have "(of_int q :: rat) < of_int (2 ^ nat (bitlen q))"
    using bq(2) by (simp only: of_int_less_iff)
  then have uq: "(of_int q :: rat) < 2 powi (bitlen q)"
    using bq1 by (simp add: power_int_def)
  have "(2::rat) powi (bitlen p - 1) / 2 powi (bitlen q) < of_int p / of_int q"
    using p q lp uq by (intro frac_less2) auto
  then have lo: "(2::rat) powi (d - 1) < x"
    by (simp add: x d_def power_int_diff)
  have "(of_int p :: rat) / of_int q < 2 powi (bitlen p) / 2 powi (bitlen q - 1)"
    using p q up lq by (intro frac_less) auto
  then have hi: "x < (2::rat) powi (d + 1)"
    by (simp add: x d_def power_int_diff power_int_add)
  show ?thesis
  proof (cases "(2::rat) powi d \<le> x")
    case True
    then show ?thesis using fl hi by simp
  next
    case False
    then show ?thesis using fl lo by simp
  qed
qed

lemma floor_log2_le:
  assumes "0 < x" "x < 2 powi (B + 1)"
  shows "floor_log2 x \<le> B"
proof -
  have "(2::rat) powi (floor_log2 x) < 2 powi (B + 1)"
    using floor_log2_bounds[OF assms(1)] assms(2) by simp
  then have "floor_log2 x < B + 1" by (rule powi2_less_D)
  then show ?thesis by simp
qed

text \<open>Two familiar roundings: the double nearest to one tenth, and a tie going to even.\<close>

lemma f64_round_examples:
  "f64_round (1 / 10) = 3602879701896397 / 2 ^ 55"
  "f64_round (2 ^ 53 + 1) = 2 ^ 53"
  "f64_add (1 / 2 - 1 / 2 ^ 54) (1 / 2) = 1"
  by code_simp+

text \<open>Rounding stays between two numbers of a grid no finer than the argument's own.\<close>

lemma f64_round_between:
  assumes x: "0 < x" and g: "floor_log2 x - 52 \<le> g"
    and a: "a = of_int ka * 2 powi g" and b: "b = of_int kb * 2 powi g"
    and ax: "a \<le> x" and xb: "x \<le> b"
  shows "a \<le> f64_round x \<and> f64_round x \<le> b"
proof -
  define e where "e = floor_log2 x - 52"
  define u :: rat where "u = 2 powi e"
  have u: "u > 0" by (simp add: u_def)
  have fr: "f64_round x = of_int (round_even (x / u)) * u"
    using x by (simp add: f64_round_def u_def e_def Let_def)
  have ge: "0 \<le> g - e" using g by (simp add: e_def)
  have pg: "(2::rat) powi g = of_int (2 ^ nat (g - e)) * u"
  proof -
    have "(2::rat) powi g = 2 powi (g - e) * 2 powi e"
      by (simp flip: power_int_add)
    also have "(2::rat) powi (g - e) = 2 ^ nat (g - e)"
      using ge by (simp add: power_int_def)
    finally show ?thesis by (simp add: u_def)
  qed
  have a': "a = of_int (ka * 2 ^ nat (g - e)) * u" by (simp add: a pg)
  have b': "b = of_int (kb * 2 ^ nat (g - e)) * u" by (simp add: b pg)
  have "of_int (ka * 2 ^ nat (g - e)) \<le> x / u"
    using ax u unfolding a' by (simp add: pos_le_divide_eq)
  then have "ka * 2 ^ nat (g - e) \<le> round_even (x / u)" by (rule round_even_ge)
  then have "(of_int (ka * 2 ^ nat (g - e)) :: rat) \<le> of_int (round_even (x / u))"
    by (simp only: of_int_le_iff)
  then have lo: "a \<le> f64_round x" unfolding a' fr using u by (simp add: mult_right_mono)
  have "x / u \<le> of_int (kb * 2 ^ nat (g - e))"
    using xb u unfolding b' by (simp add: pos_divide_le_eq)
  then have "round_even (x / u) \<le> kb * 2 ^ nat (g - e)" by (rule round_even_le)
  then have "(of_int (round_even (x / u)) :: rat) \<le> of_int (kb * 2 ^ nat (g - e))"
    by (simp only: of_int_le_iff)
  then have hi: "f64_round x \<le> b" unfolding b' fr using u by (simp add: mult_right_mono)
  show ?thesis using lo hi by simp
qed

lemma f64_round_grid:
  assumes "0 \<le> x" "x < 2 powi (B + 1)" "x = of_int k * 2 powi g" "B - 52 \<le> g"
  shows "f64_round x = x"
proof (cases "x = 0")
  case True
  then show ?thesis by (simp add: f64_round_def)
next
  case False
  then have x: "0 < x" using assms(1) by simp
  have "floor_log2 x - 52 \<le> g" using floor_log2_le[OF x assms(2)] assms(4) by simp
  from f64_round_between[OF x this assms(3) assms(3)] show ?thesis by simp
qed

lemma f64_of_int_exact: "0 \<le> i \<Longrightarrow> i < 2 ^ 53 \<Longrightarrow> f64_of_int i = of_int i"
  unfolding f64_of_int_def
  by (rule f64_round_grid[where B = 52 and g = 0 and k = i]) simp_all

lemma mean_round_half_up:
  assumes t0: "0 \<le> t" and tn: "t \<le> 100 * n" and n0: "0 < n" and n45: "n \<le> 2 ^ 45"
  shows "int_of_f64 (f64_add (f64_div (of_int t) (of_int n)) (1 / 2))
         = \<lfloor>(of_int t :: rat) / of_int n + 1 / 2\<rfloor>"
proof -
  define x :: rat where "x = of_int t / of_int n"
  define m where "m = \<lfloor>x + 1 / 2\<rfloor>"
  define q where "q = f64_round x"
  define y where "y = q + 1 / 2"
  define s where "s = f64_round y"
  have nr: "(0::rat) < of_int n" using n0 by simp
  have x0: "0 \<le> x" using t0 n0 by (simp add: x_def)
  have "(of_int t :: rat) \<le> of_int (100 * n)" using tn by (simp only: of_int_le_iff)
  then have x100: "x \<le> 100" using nr by (simp add: x_def pos_divide_le_eq)
  have m_le: "of_int m \<le> x + 1 / 2" and m_gt: "x + 1 / 2 < of_int m + 1"
    unfolding m_def by linarith+
  have m0: "0 \<le> m" using x0 unfolding m_def by simp
  have m100: "m \<le> 100"
  proof -
    have "x + 1 / 2 < of_int (101::int)" using x100 by simp
    then have "\<lfloor>x + 1 / 2\<rfloor> < 101" by (simp only: floor_less_iff)
    then show ?thesis by (simp add: m_def)
  qed
  \<comment> \<open>the mean is at least \<open>1 / (2 n)\<close> below the next half\<close>
  have "x < of_int m + 1 / 2" using m_gt by simp
  then have "of_int t / of_int n < (of_int m + 1 / 2 :: rat)" by (simp add: x_def)
  then have "of_int t < (of_int m + 1 / 2) * (of_int n :: rat)"
    using nr by (simp only: pos_divide_less_eq)
  then have "(of_int (2 * t) :: rat) < of_int ((2 * m + 1) * n)"
    by (simp add: algebra_simps)
  then have "2 * t < (2 * m + 1) * n" by (simp only: of_int_less_iff)
  then have "2 * t + 1 \<le> (2 * m + 1) * n" by simp
  then have "(of_int (2 * t + 1) :: rat) \<le> of_int ((2 * m + 1) * n)"
    by (simp only: of_int_le_iff)
  then have "x \<le> of_int m + 1 / 2 - 1 / (2 * of_int n)"
    using nr by (simp add: x_def field_simps)
  moreover have "(1::rat) / 2 ^ 46 \<le> 1 / (2 * of_int n)"
  proof -
    have "(of_int n :: rat) \<le> of_int (2 ^ 45)" using n45 by (simp only: of_int_le_iff)
    then have "2 * (of_int n :: rat) \<le> 2 ^ 46" by simp
    then show ?thesis using nr by (intro divide_left_mono) auto
  qed
  ultimately have xb: "x \<le> of_int m + 1 / 2 - 1 / 2 ^ 46" by linarith
  define kb where "kb = (2 * m + 1) * 2 ^ 45 - 1"
  have b_grid: "of_int m + 1 / 2 - 1 / 2 ^ 46 = (of_int kb :: rat) * 2 powi (- 46)"
    by (simp add: kb_def power_int_minus field_simps)
  \<comment> \<open>the quotient\<close>
  have q_hi: "q \<le> of_int m + 1 / 2 - 1 / 2 ^ 46" and q_lo: "of_int m - 1 / 2 \<le> q"
  proof -
    show "q \<le> of_int m + 1 / 2 - 1 / 2 ^ 46"
    proof (cases "x = 0")
      case True
      then have "q = 0" by (simp add: q_def f64_round_def)
      then show ?thesis using xb True by simp
    next
      case False
      then have xp: "0 < x" using x0 by simp
      have "x < 2 powi (6 + 1)" using x100 by simp
      from floor_log2_le[OF xp this] have g: "floor_log2 x - 52 \<le> - 46" by simp
      have "(0::rat) = of_int 0 * 2 powi (- 46)" by simp
      from f64_round_between[OF xp g this b_grid x0 xb] show ?thesis by (simp add: q_def)
    qed
    show "of_int m - 1 / 2 \<le> q"
    proof (cases "m = 0")
      case True
      have "0 \<le> q"
      proof (cases "x = 0")
        case True
        then show ?thesis by (simp add: q_def f64_round_def)
      next
        case False
        then have xp: "0 < x" using x0 by simp
        have "x < 2 powi (6 + 1)" using x100 by simp
        from floor_log2_le[OF xp this] have g: "floor_log2 x - 52 \<le> - 46" by simp
        have "(0::rat) = of_int 0 * 2 powi (- 46)" by simp
        from f64_round_between[OF xp g this b_grid x0 xb] show ?thesis by (simp add: q_def)
      qed
      then show ?thesis using True by simp
    next
      case False
      then have m1: "1 \<le> m" using m0 by simp
      have xa: "of_int m - 1 / 2 \<le> x" using m_le by simp
      have "(1::rat) \<le> of_int m" using m1 by simp
      then have xp: "0 < x" using xa by linarith
      have "x < 2 powi (6 + 1)" using x100 by simp
      from floor_log2_le[OF xp this] have g: "floor_log2 x - 52 \<le> - 46" by simp
      have a_grid: "of_int m - 1 / 2 = (of_int ((2 * m - 1) * 2 ^ 45) :: rat) * 2 powi (- 46)"
        by (simp add: power_int_minus field_simps)
      from f64_round_between[OF xp g a_grid b_grid xa xb] show ?thesis by (simp add: q_def)
    qed
  qed
  have q0: "0 \<le> q"
  proof (cases "m = 0")
    case True
    show ?thesis
    proof (cases "x = 0")
      case True
      then show ?thesis by (simp add: q_def f64_round_def)
    next
      case False
      then have xp: "0 < x" using x0 by simp
      have "x < 2 powi (6 + 1)" using x100 by simp
      from floor_log2_le[OF xp this] have g: "floor_log2 x - 52 \<le> - 46" by simp
      have "(0::rat) = of_int 0 * 2 powi (- 46)" by simp
      from f64_round_between[OF xp g this b_grid x0 xb] show ?thesis by (simp add: q_def)
    qed
  next
    case False
    then have "1 \<le> m" using m0 by simp
    then have "(1::rat) \<le> of_int m" by simp
    then show ?thesis using q_lo by linarith
  qed
  \<comment> \<open>the sum\<close>
  have y_lo: "of_int m \<le> y"
  proof (cases "m = 0")
    case True
    then show ?thesis using q0 by (simp add: y_def)
  next
    case False
    then show ?thesis using q_lo by (simp add: y_def)
  qed
  have y_hi: "y \<le> of_int m + 1 - 1 / 2 ^ 46" using q_hi by (simp add: y_def)
  have yp: "0 < y" using q0 by (simp add: y_def)
  have "y < 2 powi (6 + 1)"
  proof -
    have "(of_int m :: rat) \<le> of_int 100" using m100 by (simp only: of_int_le_iff)
    then show ?thesis using y_hi by simp
  qed
  from floor_log2_le[OF yp this] have gy: "floor_log2 y - 52 \<le> - 46" by simp
  have lo_grid: "(of_int m :: rat) = of_int (m * 2 ^ 46) * 2 powi (- 46)"
    by (simp add: power_int_minus)
  have hi_grid: "of_int m + 1 - 1 / 2 ^ 46 = (of_int ((m + 1) * 2 ^ 46 - 1) :: rat) * 2 powi (- 46)"
    by (simp add: power_int_minus field_simps)
  from f64_round_between[OF yp gy lo_grid hi_grid y_lo y_hi]
  have s_lo: "of_int m \<le> s" and s_hi: "s \<le> of_int m + 1 - 1 / 2 ^ 46"
    by (simp_all add: s_def)
  have "s < of_int m + 1" using s_hi by simp
  then have "\<lfloor>s\<rfloor> = m" using s_lo by (simp add: floor_unique)
  moreover have "0 \<le> s"
  proof -
    have "(0::rat) \<le> of_int m" using m0 by simp
    then show ?thesis using s_lo by linarith
  qed
  ultimately have "int_of_f64 s = m" by (simp add: int_of_f64_def)
  then show ?thesis
    by (simp add: s_def y_def q_def x_def m_def f64_add_def f64_div_def)
qed

lemma foldl_wrap64_sum:
  assumes "\<forall>r\<in>set risks. 0 \<le> Score r \<and> Score r \<le> 100" "0 \<le> acc"
    and "acc + 100 * int (length risks) < 2 ^ 63"
  shows "foldl (\<lambda>total r. wrap64 (total + Score r)) acc risks = acc + sum_list (map Score risks)"
  using assms
proof (induction risks arbitrary: acc)
  case Nil
  then show ?case by simp
next
  case (Cons r risks)
  have r: "0 \<le> Score r" "Score r \<le> 100" using Cons.prems(1) by auto
  have w: "wrap64 (acc + Score r) = acc + Score r"
    using r Cons.prems(2,3) by (simp add: wrap64_def)
  have "foldl (\<lambda>total r. wrap64 (total + Score r)) (acc + Score r) risks
        = (acc + Score r) + sum_list (map Score risks)"
    using Cons.prems r by (intro Cons.IH) auto
  then show ?case by (simp add: w)
qed

lemma sum_scores_bounds:
  "\<forall>r\<in>set risks. 0 \<le> Score r \<and> Score r \<le> 100 \<Longrightarrow>
   0 \<le> sum_list (map Score risks) \<and> sum_list (map Score risks) \<le> 100 * int (length risks)"
  by (induction risks) auto

text \<open>
  Claim C9.  For scored risks as the engine produces them (each score between 0 and 100) and a
  slice of at most \<open>2 ^ 45\<close> elements (more do not fit the address space), \<open>OverallScore\<close> is
  the arithmetic mean of the scores rounded half up, that is the floor of the mean plus one
  half, and it is 0 for the empty list; the mean of 81, 30 and 9 gives 40 and the mean of 10
  and 11 gives 11.
\<close>

theorem OverallScore_mean_half_up:
  assumes "\<forall>r\<in>set risks. 0 \<le> Score r \<and> Score r \<le> 100" and "length risks \<le> 2 ^ 45"
  shows "OverallScore risks
         = (if risks = [] then 0
            else \<lfloor>(of_int (sum_list (map Score risks)) :: rat) / of_int (int (length risks)) + 1 / 2\<rfloor>)"
proof (cases "risks = []")
  case True
  then show ?thesis by (simp add: OverallScore_def)
next
  case False
  define n where "n = int (length risks)"
  define t where "t = sum_list (map Score risks)"
  have n0: "0 < n" using False by (simp add: n_def)
  have "int (length risks) \<le> int (2 ^ 45)" using assms(2) by (simp only: of_nat_le_iff)
  then have n45: "n \<le> 2 ^ 45" by (simp add: n_def)
  have t0: "0 \<le> t" and tn: "t \<le> 100 * n"
    using sum_scores_bounds[OF assms(1)] by (simp_all add: t_def n_def)
  have "(0::int) + 100 * int (length risks) < 2 ^ 63" using n45 by (simp add: n_def)
  from foldl_wrap64_sum[OF assms(1) _ this]
  have total: "foldl (\<lambda>total r. wrap64 (total + Score r)) 0 risks = t" by (simp add: t_def)
  have ft: "f64_of_int t = of_int t" using t0 tn n45 by (intro f64_of_int_exact) auto
  have fn: "f64_of_int n = of_int n" using n0 n45 by (intro f64_of_int_exact) auto
  have "OverallScore risks
        = int_of_f64 (f64_add (f64_div (of_int t) (of_int n)) (1 / 2))"
    using False by (simp add: OverallScore_def total ft fn n_def[symmetric])
  also have "\<dots> = \<lfloor>(of_int t :: rat) / of_int n + 1 / 2\<rfloor>"
    by (rule mean_round_half_up[OF t0 tn n0 n45])
  finally show ?thesis using False by (simp add: t_def n_def)
qed

theorem OverallScore_mean_half_up_witness:
  "OverallScore (scores_of [81, 30, 9]) = 40
   \<and> OverallScore (scores_of [10, 11]) = 11
   \<and> OverallScore (scores_of []) = 0"
proof -
  have f1: "\<lfloor>(81 :: rat) / 2\<rfloor> = 40" and f2: "\<lfloor>(11 :: rat)\<rfloor> = 11"
    by (simp_all add: floor_eq_iff)
  have a: "OverallScore (scores_of [81, 30, 9]) = 40"
    using OverallScore_mean_half_up [of "scores_of [81, 30, 9]"] f1
    by (simp add: scores_of_def risk_of_def)
  have b: "OverallScore (scores_of [10, 11]) = 11"
    using OverallScore_mean_half_up [of "scores_of [10, 11]"] f2
    by (simp add: scores_of_def risk_of_def)
  have c: "OverallScore (scores_of []) = 0"
    using OverallScore_mean_half_up [of "scores_of []"]
    by (simp add: scores_of_def)
  show ?thesis using a b c by simp
qed

section \<open>Verification of the fallback hedger\<close>

lemma errors_Is_refl: "errors_Is e e"
  by (cases e) auto

text \<open>
  Claim C7.  For a fallback hedger and any risks: when the primary succeeds, its result is
  returned and the secondary is not invoked; when the primary fails and a secondary is
  configured, the secondary is invoked exactly once and its outcome is returned; when the
  primary fails and no secondary is configured, an error is returned whose chain of causes
  holds the primary's error; without a primary, the call goes to the secondary alone.  On the
  failure path the hedger logs through its logger, which must therefore be present.
\<close>

theorem GenerateHedges_fallback:
  "(primary f = Some p \<and> p risks = Ok res \<longrightarrow>
      GenerateHedges f risks = (Ok res, [CallPrimary]))
   \<and> (primary f = Some p \<and> p risks = Failed err \<and> logger f \<noteq> None \<and> secondary f = Some s \<longrightarrow>
        fst (GenerateHedges f risks) = s risks
      \<and> count_list (snd (GenerateHedges f risks)) CallSecondary = 1
      \<and> count_list (snd (GenerateHedges f risks)) CallPrimary = 1)
   \<and> (primary f = Some p \<and> p risks = Failed err \<and> logger f \<noteq> None \<and> secondary f = None \<longrightarrow>
        (\<exists>e. fst (GenerateHedges f risks) = Failed e \<and> errors_Is e err)
      \<and> CallSecondary \<notin> set (snd (GenerateHedges f risks)))
   \<and> (primary f = None \<and> secondary f = Some s \<longrightarrow>
        GenerateHedges f risks = (s risks, [CallSecondary]))"
  by (auto simp: GenerateHedges_def errors_Is_refl)

theorem GenerateHedges_fallback_witness:
  "GenerateHedges
     (NewFallbackHedger (Some (stubHedger (Ok (summary_only ''Primary summary''))))
        (Some (stubHedger (Ok (summary_only ''Secondary summary'')))) (Some ()))
     [risk_of ''q_1'' 1 9 9 TierWatch]
   = (Ok (summary_only ''Primary summary''), [CallPrimary])
   \<and> GenerateHedges
     (NewFallbackHedger (Some (stubHedger (Failed (Err ''anthropic timeout''))))
        (Some (stubHedger (Ok (summary_only ''Secondary summary'')))) (Some ()))
     [risk_of ''q_1'' 1 9 9 TierWatch]
   = (Ok (summary_only ''Secondary summary''), [CallPrimary, LogWarn, CallSecondary])
   \<and> fst (GenerateHedges
     (NewFallbackHedger (Some (stubHedger (Failed (Err ''primary blew up'')))) None (Some ()))
     [risk_of ''q_1'' 1 9 9 TierWatch])
   = Failed (Wrapf ''ai: primary failed and no secondary configured: '' (Err ''primary blew up'') [])
   \<and> GenerateHedges
     (NewFallbackHedger None (Some (stubHedger (Ok (summary_only ''Only secondary'')))) (Some ()))
     [risk_of ''q_1'' 1 9 9 TierWatch]
   = (Ok (summary_only ''Only secondary''), [CallSecondary])"
proof -
  let ?r = "[risk_of ''q_1'' 1 9 9 TierWatch]"
  let ?p = "stubHedger (Ok (summary_only ''Primary summary''))"
  let ?s = "stubHedger (Ok (summary_only ''Secondary summary''))"
  let ?pf = "stubHedger (Failed (Err ''anthropic timeout''))"
  let ?pb = "stubHedger (Failed (Err ''primary blew up''))"
  let ?so = "stubHedger (Ok (summary_only ''Only secondary''))"
  have a: "GenerateHedges (NewFallbackHedger (Some ?p) (Some ?s) (Some ())) ?r
           = (Ok (summary_only ''Primary summary''), [CallPrimary])"
    using GenerateHedges_fallback
      [of "NewFallbackHedger (Some ?p) (Some ?s) (Some ())" ?p ?r "summary_only ''Primary summary''"]
    by (simp add: NewFallbackHedger_def stubHedger_def)
  have "fst (GenerateHedges (NewFallbackHedger (Some ?pf) (Some ?s) (Some ())) ?r) = ?s ?r"
    using GenerateHedges_fallback
      [of "NewFallbackHedger (Some ?pf) (Some ?s) (Some ())" ?pf ?r _ "Err ''anthropic timeout''" ?s]
    by (simp add: NewFallbackHedger_def stubHedger_def)
  then have b: "GenerateHedges (NewFallbackHedger (Some ?pf) (Some ?s) (Some ())) ?r
           = (Ok (summary_only ''Secondary summary''), [CallPrimary, LogWarn, CallSecondary])"
    by (simp add: GenerateHedges_def NewFallbackHedger_def stubHedger_def)
  have "\<exists>e. fst (GenerateHedges (NewFallbackHedger (Some ?pb) None (Some ())) ?r) = Failed e
             \<and> errors_Is e (Err ''primary blew up'')"
    using GenerateHedges_fallback
      [of "NewFallbackHedger (Some ?pb) None (Some ())" ?pb ?r _ "Err ''primary blew up''"]
    by (simp add: NewFallbackHedger_def stubHedger_def)
  then have c: "fst (GenerateHedges (NewFallbackHedger (Some ?pb) None (Some ())) ?r)
     = Failed (Wrapf ''ai: primary failed and no secondary configured: '' (Err ''primary blew up'') [])"
    by (simp add: GenerateHedges_def NewFallbackHedger_def stubHedger_def)
  have d: "GenerateHedges (NewFallbackHedger None (Some ?so) (Some ())) ?r
           = (Ok (summary_only ''Only secondary''), [CallSecondary])"
    using GenerateHedges_fallback
      [of "NewFallbackHedger None (Some ?so) (Some ())" _ ?r _ _ ?so]
    by (simp add: NewFallbackHedger_def stubHedger_def)
  show ?thesis using a b c d by simp
qed

text \<open>
  Claim C8 (amended).  The fallback hedger has no short circuit of its own.  Given the empty
  risk list it calls the primary when one is configured, and the secondary when there is no
  primary or the primary fails, exactly as for any other list; its result is the empty one
  whenever the provider it ends up calling answers the empty list with the empty result.
  The job does not call its hedger at all when no watch or red risk is left: it goes on with
  the empty result.
\<close>

theorem GenerateHedges_empty_risks:
  "(primary f = Some p \<and> p [] = Ok HedgeResult_zero \<longrightarrow>
      GenerateHedges f [] = (Ok HedgeResult_zero, [CallPrimary]))
   \<and> (primary f = None \<and> secondary f = Some s \<and> s [] = Ok HedgeResult_zero \<longrightarrow>
      GenerateHedges f [] = (Ok HedgeResult_zero, [CallSecondary]))
   \<and> (primary f = Some p \<and> p [] = Failed err \<and> logger f \<noteq> None
        \<and> secondary f = Some s \<and> s [] = Ok HedgeResult_zero \<longrightarrow>
      GenerateHedges f [] = (Ok HedgeResult_zero, [CallPrimary, LogWarn, CallSecondary]))
   \<and> (FilterByTier risks [TierWatch, TierRed] = [] \<longrightarrow>
      Run_generate_hedges hedger risks = (Ok HedgeResult_zero, []))"
  by (auto simp: GenerateHedges_def Run_generate_hedges_def)

theorem GenerateHedges_empty_risks_witness:
  "GenerateHedges
     (NewFallbackHedger (Some (\<lambda>risks. if risks = [] then Ok HedgeResult_zero
                                       else Ok (summary_only ''Primary summary'')))
        None (Some ())) []
   = (Ok HedgeResult_zero, [CallPrimary])
   \<and> GenerateHedges
     (NewFallbackHedger None (Some (stubHedger (Ok HedgeResult_zero))) (Some ())) []
   = (Ok HedgeResult_zero, [CallSecondary])
   \<and> GenerateHedges
     (NewFallbackHedger (Some (stubHedger (Failed (Err ''anthropic timeout''))))
        (Some (stubHedger (Ok HedgeResult_zero))) (Some ())) []
   = (Ok HedgeResult_zero, [CallPrimary, LogWarn, CallSecondary])
   \<and> FilterByTier [risk_of ''q_1'' 1 6 5 TierManage] [TierWatch, TierRed] = []
   \<and> Run_generate_hedges
       (GenerateHedges (NewFallbackHedger
          (Some (stubHedger (Ok (summary_only ''should not appear'')))) None (Some ())))
       [risk_of ''q_1'' 1 6 5 TierManage]
     = (Ok HedgeResult_zero, [])"
proof -
  let ?p = "\<lambda>risks. if risks = [] then Ok HedgeResult_zero
                    else Ok (summary_only ''Primary summary'')"
  let ?z = "stubHedger (Ok HedgeResult_zero)"
  let ?pf = "stubHedger (Failed (Err ''anthropic timeout''))"
  let ?h = "GenerateHedges (NewFallbackHedger
          (Some (stubHedger (Ok (summary_only ''should not appear'')))) None (Some ()))"
  have a: "GenerateHedges (NewFallbackHedger (Some ?p) None (Some ())) []
           = (Ok HedgeResult_zero, [CallPrimary])"
    using GenerateHedges_empty_risks [of "NewFallbackHedger (Some ?p) None (Some ())" ?p]
    by (simp add: NewFallbackHedger_def)
  have a2: "GenerateHedges (NewFallbackHedger None (Some ?z) (Some ())) []
           = (Ok HedgeResult_zero, [CallSecondary])"
    using GenerateHedges_empty_risks [of "NewFallbackHedger None (Some ?z) (Some ())" _ ?z]
    by (simp add: NewFallbackHedger_def stubHedger_def)
  have a3: "GenerateHedges (NewFallbackHedger (Some ?pf) (Some ?z) (Some ())) []
           = (Ok HedgeResult_zero, [CallPrimary, LogWarn, CallSecondary])"
    using GenerateHedges_empty_risks
      [of "NewFallbackHedger (Some ?pf) (Some ?z) (Some ())" ?pf ?z "Err ''anthropic timeout''"]
    by (simp add: NewFallbackHedger_def stubHedger_def)
  have b: "FilterByTier [risk_of ''q_1'' 1 6 5 TierManage] [TierWatch, TierRed] = []"
    by (simp add: FilterByTier_def risk_of_def)
  have c: "Run_generate_hedges ?h [risk_of ''q_1'' 1 6 5 TierManage] = (Ok HedgeResult_zero, [])"
    using GenerateHedges_empty_risks [of _ _ _ _ "[risk_of ''q_1'' 1 6 5 TierManage]" ?h] b
    by blast
  show ?thesis using a a2 a3 b c by simp
qed

text \<open>
  As first stated, the claim has the fallback hedger itself return the empty result for the
  empty list without invoking a provider.  With the stub of the package's own test as primary,
  the primary is invoked and its canned result comes back.
\<close>

theorem GenerateHedges_empty_risks_invokes_primary:
  "GenerateHedges
     (NewFallbackHedger (Some (stubHedger (Ok (summary_only ''should not appear''))))
        (Some (stubHedger (Ok HedgeResult_zero))) (Some ())) []
   = (Ok (summary_only ''should not appear''), [CallPrimary])"
  by (simp add: GenerateHedges_def NewFallbackHedger_def stubHedger_def)

text \<open>
  Claim C10.  A fallback hedger built with neither a primary nor a secondary panics on every
  call of \<open>GenerateHedges\<close>, whatever the logger and the risks.  In general a call panics
  exactly when both hedgers are nil, or the primary fails and the logger is nil (the warning is
  written through the nil logger before the secondary is looked at), or the provider that is
  called panics itself.  A failing primary without a secondary yields the wrapped error when
  there is a logger and a panic when there is none.  A call that does not panic has at least
  one of the two hedgers present.
\<close>

theorem GenerateHedges_panics_iff:
  "fst (GenerateHedges (NewFallbackHedger None None l) risks) = Panic
   \<and> (fst (GenerateHedges f risks) = Panic \<longleftrightarrow>
        (primary f = None \<and> secondary f = None)
      \<or> (\<exists>p err. primary f = Some p \<and> p risks = Failed err \<and> logger f = None)
      \<or> (\<exists>p. primary f = Some p \<and> p risks = Panic)
      \<or> (\<exists>s. secondary f = Some s \<and> s risks = Panic
            \<and> (primary f = None \<or> (\<exists>p err. primary f = Some p \<and> p risks = Failed err))))
   \<and> (primary f = Some p \<and> p risks = Failed err \<and> secondary f = None \<longrightarrow>
        fst (GenerateHedges f risks)
          = (if logger f = None then Panic
             else Failed (Wrapf ''ai: primary failed and no secondary configured: '' err [])))
   \<and> (fst (GenerateHedges f risks) \<noteq> Panic \<longrightarrow> primary f \<noteq> None \<or> secondary f \<noteq> None)"
proof (intro conjI)
  show "fst (GenerateHedges (NewFallbackHedger None None l) risks) = Panic"
    by (simp add: GenerateHedges_def NewFallbackHedger_def)
  show "fst (GenerateHedges f risks) = Panic \<longleftrightarrow>
        (primary f = None \<and> secondary f = None)
      \<or> (\<exists>p err. primary f = Some p \<and> p risks = Failed err \<and> logger f = None)
      \<or> (\<exists>p. primary f = Some p \<and> p risks = Panic)
      \<or> (\<exists>s. secondary f = Some s \<and> s risks = Panic
            \<and> (primary f = None \<or> (\<exists>p err. primary f = Some p \<and> p risks = Failed err)))"
    by (auto simp: GenerateHedges_def split: option.splits result.splits)
  show "primary f = Some p \<and> p risks = Failed err \<and> secondary f = None \<longrightarrow>
        fst (GenerateHedges f risks)
          = (if logger f = None then Panic
             else Failed (Wrapf ''ai: primary failed and no secondary configured: '' err []))"
    by (auto simp: GenerateHedges_def split: option.splits result.splits)
  show "fst (GenerateHedges f risks) \<noteq> Panic \<longrightarrow> primary f \<noteq> None \<or> secondary f \<noteq> None"
    by (auto simp: GenerateHedges_def split: option.splits result.splits)
qed

theorem GenerateHedges_panics_iff_witness:
  "fst (GenerateHedges (NewFallbackHedger None None (Some ())) [risk_of ''q_1'' 1 9 9 TierWatch])
     = Panic
   \<and> fst (GenerateHedges
       (NewFallbackHedger (Some (stubHedger (Failed (Err ''primary blew up'')))) None (Some ()))
       [risk_of ''q_1'' 1 9 9 TierWatch])
     = Failed (Wrapf ''ai: primary failed and no secondary configured: ''
                 (Err ''primary blew up'') [])
   \<and> fst (GenerateHedges
       (NewFallbackHedger (Some (stubHedger (Failed (Err ''primary blew up''))))
          (Some (stubHedger (Ok (summary_only ''From secondary'')))) None)
       [risk_of ''q_1'' 1 9 9 TierWatch])
     = Panic
   \<and> fst (GenerateHedges
       (NewFallbackHedger None (Some (stubHedger (Ok (summary_only ''Only secondary'')))) None)
       [risk_of ''q_1'' 1 9 9 TierWatch])
     \<noteq> Panic"
proof -
  let ?r = "[risk_of ''q_1'' 1 9 9 TierWatch]"
  let ?pb = "stubHedger (Failed (Err ''primary blew up''))"
  let ?so = "stubHedger (Ok (summary_only ''Only secondary''))"
  let ?sf = "stubHedger (Ok (summary_only ''From secondary''))"
  have a: "fst (GenerateHedges (NewFallbackHedger None None (Some ())) ?r) = Panic"
    using GenerateHedges_panics_iff [of "Some ()" ?r] by blast
  have b: "fst (GenerateHedges (NewFallbackHedger (Some ?pb) None (Some ())) ?r)
      = Failed (Wrapf ''ai: primary failed and no secondary configured: ''
                  (Err ''primary blew up'') [])"
    using GenerateHedges_panics_iff
      [of _ ?r "NewFallbackHedger (Some ?pb) None (Some ())" ?pb "Err ''primary blew up''"]
    by (simp add: NewFallbackHedger_def stubHedger_def)
  have c: "fst (GenerateHedges (NewFallbackHedger (Some ?pb) (Some ?sf) None) ?r) = Panic"
    using GenerateHedges_panics_iff
      [of _ ?r "NewFallbackHedger (Some ?pb) (Some ?sf) None"]
    by (simp add: NewFallbackHedger_def stubHedger_def)
  have d: "fst (GenerateHedges (NewFallbackHedger None (Some ?so) None) ?r) \<noteq> Panic"
    using GenerateHedges_panics_iff
      [of _ ?r "NewFallbackHedger None (Some ?so) None"]
    by (simp add: NewFallbackHedger_def stubHedger_def)
  show ?thesis using a b c d by simp
qed

text \<open>
  As first stated, the claim has a hedger with a failing primary and no secondary panic only
  when the primary is nil.  The constructor accepts a nil logger as well, and then the failure
  of a primary that is present panics at the warning.
\<close>

theorem GenerateHedges_nil_logger_panics:
  "GenerateHedges
     (NewFallbackHedger (Some (stubHedger (Failed (Err ''primary blew up'')))) None None)
     [risk_of ''q_1'' 1 9 9 TierWatch]
   = (Panic, [CallPrimary])
   \<and> primary (NewFallbackHedger (Some (stubHedger (Failed (Err ''primary blew up'')))) None None)
       \<noteq> None"
  by (simp add: GenerateHedges_def NewFallbackHedger_def stubHedger_def)

section \<open>Verification of the retry loop\<close>







section \<open>Verification of the transactional store\<close>

lemma withTx_error_keeps_db:
  "withTx faults db c0 fn = (db', c, Some err) \<Longrightarrow> db' = db"
  by (auto simp: withTx_def split: if_splits prod.splits option.splits)

text \<open>After a failed \<open>fn\<close> the caller sees the same leaf errors in the chain of the result.\<close>

lemma withTx_fn_error:
  assumes "BeginTx \<notin> set faults" "fn db = (tx, c, Some err)"
  shows "\<exists>err'. withTx faults db c0 fn = (db, c, Some err')
               \<and> errors_Is err' (Err s) = errors_Is err (Err s)"
  using assms by (auto simp: withTx_def)

text \<open>An \<^verbatim>\<open>UPDATE\<close> that leaves the columns of a \<^verbatim>\<open>WHERE\<close> clause alone does not change what it selects.\<close>

lemma filter_map_update:
  "(\<And>x. Q (upd x) = Q x) \<Longrightarrow>
   filter Q (map (\<lambda>x. if hit x then upd x else x) xs)
     = map (\<lambda>x. if hit x then upd x else x) (filter Q xs)"
  by (induction xs) auto

lemma map_update_hit: "\<forall>x\<in>set xs. hit x \<Longrightarrow> map (\<lambda>x. if hit x then upd x else x) xs = map upd xs"
  by (induction xs) auto

lemma map_update_miss: "\<forall>x\<in>set xs. \<not> hit x \<Longrightarrow> map (\<lambda>x. if hit x then upd x else x) xs = xs"
  by (induction xs) auto

subsection \<open>AttachPaymentIntent\<close>

lemma AttachPaymentIntent_error_keeps_db:
  "AttachPaymentIntent faults db p = (db', session, Some err) \<Longrightarrow> db' = db"
  by (auto simp: AttachPaymentIntent_def split: prod.splits option.splits if_splits
      dest: withTx_error_keeps_db)

lemma AttachPaymentIntent_already:
  assumes "BeginTx \<notin> set faults" "QGetSessionByID \<notin> set faults"
    and "GetSessionByID [] db (pSessionID p) = Inr existing"
    and "StripePaymentIntent existing = Some s" "s \<noteq> []"
  shows "AttachPaymentIntent faults db p = (db, existing, Some ErrPaymentIntentAlreadyAttached)"
proof -
  have g: "GetSessionByID faults db (pSessionID p) = Inr existing"
    using assms(2,3) by (simp add: GetSessionByID_def)
  have fn: "AttachPaymentIntent_fn faults p db = (db, existing, Some ErrPaymentIntentAlreadyAttached)"
    using assms(4,5) by (simp add: AttachPaymentIntent_fn_def g)
  obtain err' where "withTx faults db Session_zero (AttachPaymentIntent_fn faults p)
                      = (db, existing, Some err')"
    and "errors_Is err' ErrPaymentIntentAlreadyAttached"
    using withTx_fn_error[of faults "AttachPaymentIntent_fn faults p" db db existing
        ErrPaymentIntentAlreadyAttached Session_zero
        "''store: payment intent already attached to session''"] assms(1) fn
    by (auto simp: ErrPaymentIntentAlreadyAttached_def)
  then show ?thesis by (simp add: AttachPaymentIntent_def)
qed

lemma GetSessionByID_Inr_D:
  "GetSessionByID [] db sid = Inr s \<Longrightarrow> s \<in> set (sessions db) \<and> SessionID s = sid"
proof -
  assume a: "GetSessionByID [] db sid = Inr s"
  then obtain rest where "filter (\<lambda>s. SessionID s = sid) (sessions db) = s # rest"
    by (auto simp: GetSessionByID_def split: list.splits)
  then have "s \<in> set (filter (\<lambda>s. SessionID s = sid) (sessions db))" by simp
  then show ?thesis by simp
qed

lemma AttachPaymentIntent_writes:
  assumes g: "GetSessionByID [] db (pSessionID p) = Inr existing"
    and free: "StripePaymentIntent existing = None \<or> StripePaymentIntent existing = Some []"
    and uniq: "\<forall>s\<in>set (sessions db). SessionID s \<noteq> pSessionID p \<longrightarrow>
                 StripePaymentIntent s \<noteq> Some (pStripePaymentIntent p)
               \<and> (pStripeCustomerID p \<noteq> [] \<longrightarrow> StripeCustomerID s \<noteq> Some (pStripeCustomerID p))"
  shows "\<exists>db' updated.
           AttachPaymentIntent [] db p = (db', updated, None)
         \<and> updated = existing\<lparr>StripeCustomerID := null_if_empty (pStripeCustomerID p),
                               StripePaymentIntent := Some (pStripePaymentIntent p),
                               Email := null_if_empty (pEmail p), SessionUpdatedAt := now db\<rparr>
         \<and> GetSessionByID [] db' (pSessionID p) = Inr updated
         \<and> filter (\<lambda>s. SessionID s \<noteq> pSessionID p) (sessions db')
             = filter (\<lambda>s. SessionID s \<noteq> pSessionID p) (sessions db)"
proof -
  define sid where "sid = pSessionID p"
  define upd :: "Session \<Rightarrow> Session" where "upd = (\<lambda>s. s\<lparr>StripeCustomerID := null_if_empty (pStripeCustomerID p),
                           StripePaymentIntent := Some (pStripePaymentIntent p),
                           Email := null_if_empty (pEmail p), SessionUpdatedAt := now db\<rparr>)"
  define db' where "db' = db\<lparr>sessions := map (\<lambda>s. if SessionID s = sid then upd s else s) (sessions db)\<rparr>"
  from g obtain rest where f: "filter (\<lambda>s. SessionID s = sid) (sessions db) = existing # rest"
    by (auto simp: GetSessionByID_def sid_def split: list.splits)
  have nc: "\<not> ((null_if_empty (pStripeCustomerID p) \<noteq> None
                \<and> null_if_empty (pStripeCustomerID p)
                    \<in> set (map StripeCustomerID (filter (\<lambda>s. \<not> SessionID s = sid) (sessions db))))
             \<or> (Some (pStripePaymentIntent p) \<noteq> None
                \<and> Some (pStripePaymentIntent p)
                    \<in> set (map StripePaymentIntent (filter (\<lambda>s. \<not> SessionID s = sid) (sessions db)))))"
    using uniq by (auto simp: null_if_empty_def sid_def split: if_splits)
  have a: "AttachStripeCustomer [] db
             \<lparr>aID = sid, aStripeCustomerID = null_if_empty (pStripeCustomerID p),
              aStripePaymentIntent = Some (pStripePaymentIntent p),
              aEmail = null_if_empty (pEmail p)\<rparr> = Inr (db', upd existing)"
    using nc by (simp add: AttachStripeCustomer_def f db'_def upd_def Let_def)
  have guard: "\<not> (case StripePaymentIntent existing of None \<Rightarrow> False | Some s \<Rightarrow> s \<noteq> [])"
    using free by auto
  have fn: "AttachPaymentIntent_fn [] p db = (db', upd existing, None)"
    using guard a g by (simp add: AttachPaymentIntent_fn_def sid_def)
  have res: "AttachPaymentIntent [] db p = (db', upd existing, None)"
    by (simp add: AttachPaymentIntent_def withTx_def fn)
  have "filter (\<lambda>s. SessionID s = sid) (sessions db')
        = map upd (filter (\<lambda>s. SessionID s = sid) (sessions db))"
    unfolding db'_def by (simp add: filter_map_update upd_def map_update_hit)
  then have g': "GetSessionByID [] db' sid = Inr (upd existing)"
    by (simp add: GetSessionByID_def f)
  have oth: "filter (\<lambda>s. SessionID s \<noteq> sid) (sessions db')
             = filter (\<lambda>s. SessionID s \<noteq> sid) (sessions db)"
    unfolding db'_def by (simp add: filter_map_update upd_def map_update_miss)
  show ?thesis using res g' oth by (auto simp: upd_def sid_def)
qed

lemma AttachPaymentIntent_never_overwrites:
  assumes "GetSessionByID [] db (pSessionID p) = Inr existing"
    and "StripePaymentIntent existing = Some s" "s \<noteq> []"
  shows "fst (AttachPaymentIntent faults db p) = db"
proof -
  obtain db' session err where r: "AttachPaymentIntent faults db p = (db', session, err)"
    by (cases "AttachPaymentIntent faults db p") auto
  show ?thesis
  proof (cases err)
    case (Some e)
    with r show ?thesis by (auto dest: AttachPaymentIntent_error_keeps_db)
  next
    case None
    have "BeginTx \<notin> set faults"
      using r None
      by (auto simp: AttachPaymentIntent_def withTx_def split: if_splits prod.splits option.splits)
    moreover have "QGetSessionByID \<notin> set faults"
      using r None
      by (auto simp: AttachPaymentIntent_def withTx_def AttachPaymentIntent_fn_def
          GetSessionByID_def split: if_splits prod.splits option.splits)
    ultimately show ?thesis
      using AttachPaymentIntent_already[OF _ _ assms, of faults] by simp
  qed
qed

text \<open>
  Claim C6.  When the session row already carries a non-empty payment-intent reference,
  \<open>AttachPaymentIntent\<close> leaves the database as it is, whatever else fails, and, when the
  transaction can begin and read the session, returns that row with the sentinel
  \<open>ErrPaymentIntentAlreadyAttached\<close>.  Otherwise, when no statement fails and no other session
  holds the new intent or customer reference, it writes the customer, intent and email
  references to the session and to no other row.
\<close>

theorem AttachPaymentIntent_guarded:
  "(GetSessionByID [] db (pSessionID p) = Inr existing
      \<and> StripePaymentIntent existing = Some s \<and> s \<noteq> [] \<longrightarrow>
        fst (AttachPaymentIntent faults db p) = db
      \<and> (BeginTx \<notin> set faults \<and> QGetSessionByID \<notin> set faults \<longrightarrow>
           AttachPaymentIntent faults db p = (db, existing, Some ErrPaymentIntentAlreadyAttached)))
   \<and> (GetSessionByID [] db (pSessionID p) = Inr existing
      \<and> (StripePaymentIntent existing = None \<or> StripePaymentIntent existing = Some [])
      \<and> (\<forall>x\<in>set (sessions db). SessionID x \<noteq> pSessionID p \<longrightarrow>
             StripePaymentIntent x \<noteq> Some (pStripePaymentIntent p)
           \<and> (pStripeCustomerID p \<noteq> [] \<longrightarrow> StripeCustomerID x \<noteq> Some (pStripeCustomerID p))) \<longrightarrow>
        (\<exists>db' updated.
           AttachPaymentIntent [] db p = (db', updated, None)
         \<and> updated = existing\<lparr>StripeCustomerID := null_if_empty (pStripeCustomerID p),
                               StripePaymentIntent := Some (pStripePaymentIntent p),
                               Email := null_if_empty (pEmail p), SessionUpdatedAt := now db\<rparr>
         \<and> GetSessionByID [] db' (pSessionID p) = Inr updated
         \<and> filter (\<lambda>x. SessionID x \<noteq> pSessionID p) (sessions db')
             = filter (\<lambda>x. SessionID x \<noteq> pSessionID p) (sessions db)))"
proof (intro conjI impI)
  assume a: "GetSessionByID [] db (pSessionID p) = Inr existing
      \<and> StripePaymentIntent existing = Some s \<and> s \<noteq> []"
  then show "fst (AttachPaymentIntent faults db p) = db"
    using AttachPaymentIntent_never_overwrites by blast
  assume "BeginTx \<notin> set faults \<and> QGetSessionByID \<notin> set faults"
  then show "AttachPaymentIntent faults db p = (db, existing, Some ErrPaymentIntentAlreadyAttached)"
    using a AttachPaymentIntent_already by blast
next
  assume "GetSessionByID [] db (pSessionID p) = Inr existing
      \<and> (StripePaymentIntent existing = None \<or> StripePaymentIntent existing = Some [])
      \<and> (\<forall>x\<in>set (sessions db). SessionID x \<noteq> pSessionID p \<longrightarrow>
             StripePaymentIntent x \<noteq> Some (pStripePaymentIntent p)
           \<and> (pStripeCustomerID p \<noteq> [] \<longrightarrow> StripeCustomerID x \<noteq> Some (pStripeCustomerID p)))"
  then show "\<exists>db' updated.
           AttachPaymentIntent [] db p = (db', updated, None)
         \<and> updated = existing\<lparr>StripeCustomerID := null_if_empty (pStripeCustomerID p),
                               StripePaymentIntent := Some (pStripePaymentIntent p),
                               Email := null_if_empty (pEmail p), SessionUpdatedAt := now db\<rparr>
         \<and> GetSessionByID [] db' (pSessionID p) = Inr updated
         \<and> filter (\<lambda>x. SessionID x \<noteq> pSessionID p) (sessions db')
             = filter (\<lambda>x. SessionID x \<noteq> pSessionID p) (sessions db)"
    using AttachPaymentIntent_writes[of db p existing] by blast
qed

theorem AttachPaymentIntent_guarded_witness:
  "AttachPaymentIntent [QAttachStripeCustomer, Rollback] db_0 (attach_params 2)
     = (db_0, session_2, Some ErrPaymentIntentAlreadyAttached)
   \<and> (\<exists>db'. AttachPaymentIntent [] db_0 (attach_params 1)
          = (db', session_1\<lparr>StripeCustomerID := Some ''cus_B'', StripePaymentIntent := Some ''pi_B'',
                           Email := Some ''b@example.com'', SessionUpdatedAt := 7\<rparr>, None))"
proof -
  have g2: "GetSessionByID [] db_0 (pSessionID (attach_params 2)) = Inr session_2"
    by (simp add: GetSessionByID_def db_0_def attach_params_def session_1_def session_2_def)
  have s2: "StripePaymentIntent session_2 = Some ''pi_A''" by (simp add: session_2_def)
  have a: "AttachPaymentIntent [QAttachStripeCustomer, Rollback] db_0 (attach_params 2)
     = (db_0, session_2, Some ErrPaymentIntentAlreadyAttached)"
    using AttachPaymentIntent_guarded
      [of db_0 "attach_params 2" session_2 "''pi_A''" "[QAttachStripeCustomer, Rollback]"] g2 s2
    by simp
  have g1: "GetSessionByID [] db_0 (pSessionID (attach_params 1)) = Inr session_1"
    by (simp add: GetSessionByID_def db_0_def attach_params_def session_1_def session_2_def)
  have s1: "StripePaymentIntent session_1 = None" by (simp add: session_1_def)
  have u: "\<forall>x\<in>set (sessions db_0). SessionID x \<noteq> pSessionID (attach_params 1) \<longrightarrow>
             StripePaymentIntent x \<noteq> Some (pStripePaymentIntent (attach_params 1))
           \<and> (pStripeCustomerID (attach_params 1) \<noteq> [] \<longrightarrow>
                StripeCustomerID x \<noteq> Some (pStripeCustomerID (attach_params 1)))"
    by (simp add: db_0_def attach_params_def session_1_def session_2_def)
  have "\<exists>db' updated.
           AttachPaymentIntent [] db_0 (attach_params 1) = (db', updated, None)
         \<and> updated = session_1\<lparr>StripeCustomerID := null_if_empty (pStripeCustomerID (attach_params 1)),
                               StripePaymentIntent := Some (pStripePaymentIntent (attach_params 1)),
                               Email := null_if_empty (pEmail (attach_params 1)),
                               SessionUpdatedAt := now db_0\<rparr>"
    using AttachPaymentIntent_guarded [of db_0 "attach_params 1" session_1] g1 s1 u by blast
  then have b: "\<exists>db'. AttachPaymentIntent [] db_0 (attach_params 1)
          = (db', session_1\<lparr>StripeCustomerID := Some ''cus_B'', StripePaymentIntent := Some ''pi_B'',
                           Email := Some ''b@example.com'', SessionUpdatedAt := 7\<rparr>, None)"
    by (auto simp: attach_params_def null_if_empty_def db_0_def)
  show ?thesis using a b by simp
qed

subsection \<open>InitialiseReport\<close>

lemma MarkSessionPaid_Inr_D:
  assumes "MarkSessionPaid faults db (Some intent) = Inr (tx1, session)"
  shows "QMarkSessionPaid \<notin> set faults"
    and "tx1 = db\<lparr>sessions := map (\<lambda>x. if StripePaymentIntent x = Some intent
                     then x\<lparr>PaymentStatus := PaymentPaid, PaidAt := Some (now db),
                            SessionUpdatedAt := now db\<rparr> else x) (sessions db)\<rparr>"
    and "PaymentStatus session = PaymentPaid"
    and "\<exists>x rest. filter (\<lambda>x. StripePaymentIntent x = Some intent) (sessions db) = x # rest
                  \<and> SessionID session = SessionID x"
  using assms
  by (auto simp: MarkSessionPaid_def Let_def split: if_splits list.splits)

lemma MarkSessionPaid_again:
  assumes "MarkSessionPaid faults db (Some intent) = Inr (tx1, session)"
    and "QMarkSessionPaid \<notin> set faults2"
  shows "\<exists>tx1' session'. MarkSessionPaid faults2 (tx1\<lparr>reports := rs, now := t\<rparr>) (Some intent)
                             = Inr (tx1', session')
           \<and> SessionID session' = SessionID session \<and> reports tx1' = rs"
proof -
  define hit where "hit = (\<lambda>x::Session. StripePaymentIntent x = Some intent)"
  define upd where "upd = (\<lambda>x::Session. x\<lparr>PaymentStatus := PaymentPaid, PaidAt := Some (now db),
                            SessionUpdatedAt := now db\<rparr>)"
  from MarkSessionPaid_Inr_D[OF assms(1)] obtain x rest where
    tx1: "tx1 = db\<lparr>sessions := map (\<lambda>x. if hit x then upd x else x) (sessions db)\<rparr>"
    and f: "filter hit (sessions db) = x # rest" and sid: "SessionID session = SessionID x"
    by (auto simp: hit_def upd_def)
  have "filter hit (sessions tx1) = map upd (filter hit (sessions db))"
    unfolding tx1 by (simp add: filter_map_update hit_def upd_def map_update_hit)
  then have f1: "filter hit (sessions tx1) = upd x # map upd rest" by (simp add: f)
  show ?thesis
    using assms(2) f1 sid
    by (simp add: MarkSessionPaid_def Let_def hit_def[symmetric] upd_def)
qed

lemma GetReportBySessionID_NoRows_D:
  assumes "GetReportBySessionID faults db sid = Inl err" "errors_Is err sql_ErrNoRows"
  shows "filter (\<lambda>r. ReportSessionID r = sid) (reports db) = []"
  using assms
  by (auto simp: GetReportBySessionID_def io_error_def sql_ErrNoRows_def
      split: if_splits list.splits)

lemma CreateReport_Inr_D:
  assumes "CreateReport faults db sid = Inr (tx2, created)"
  shows "tx2 = db\<lparr>reports := reports db @ [created]\<rparr>" "ReportSessionID created = sid"
    "Status created = StatusDraft"
  using assms by (auto simp: CreateReport_def Let_def split: if_splits)

lemma CreateReport_Inl_D:
  "CreateReport faults db sid = Inl err \<Longrightarrow> \<not> errors_Is err ErrReportAlreadyExists"
  by (auto simp: CreateReport_def Let_def io_error_def foreign_key_violation_def
      unique_violation_def ErrReportAlreadyExists_def split: if_splits)

lemma InitialiseReport_error_keeps_db:
  "InitialiseReport faults db intent = (db', report, Some err) \<Longrightarrow> db' = db"
  by (auto simp: InitialiseReport_def split: prod.splits option.splits if_splits
      dest: withTx_error_keeps_db)

lemma InitialiseReport_existing:
  assumes b: "BeginTx \<notin> set faults"
    and m: "MarkSessionPaid faults db (Some intent) = Inr (tx1, session)"
    and g: "GetReportBySessionID faults tx1 (SessionID session) = Inr existing"
  shows "InitialiseReport faults db intent = (db, existing, Some ErrReportAlreadyExists)"
proof -
  have fn: "InitialiseReport_fn faults intent db = (tx1, existing, Some ErrReportAlreadyExists)"
    by (simp add: InitialiseReport_fn_def m g)
  obtain err' where "withTx faults db Report_zero (InitialiseReport_fn faults intent)
                      = (db, existing, Some err')"
    and "errors_Is err' ErrReportAlreadyExists"
    using withTx_fn_error[of faults "InitialiseReport_fn faults intent" db tx1 existing
        ErrReportAlreadyExists Report_zero "''store: report already exists for session''"] b fn
    by (auto simp: ErrReportAlreadyExists_def)
  then show ?thesis by (simp add: InitialiseReport_def)
qed

lemma InitialiseReport_create_fails:
  assumes b: "BeginTx \<notin> set faults"
    and m: "MarkSessionPaid faults db (Some intent) = Inr (tx1, session)"
    and g: "GetReportBySessionID faults tx1 (SessionID session) = Inl err"
           "errors_Is err sql_ErrNoRows"
    and c: "CreateReport faults tx1 (SessionID session) = Inl err'"
  shows "\<exists>e. InitialiseReport faults db intent = (db, Report_zero, Some e)
            \<and> \<not> errors_Is e ErrReportAlreadyExists"
proof -
  have fn: "InitialiseReport_fn faults intent db
            = (tx1, Report_zero, Some (Wrapf ''InitialiseReport: create report: '' err' []))"
    by (simp add: InitialiseReport_fn_def m g c)
  have ne: "\<not> errors_Is (Wrapf ''InitialiseReport: create report: '' err' []) ErrReportAlreadyExists"
    using CreateReport_Inl_D[OF c] by (simp add: ErrReportAlreadyExists_def)
  obtain e where "withTx faults db Report_zero (InitialiseReport_fn faults intent)
                      = (db, Report_zero, Some e)"
    and "\<not> errors_Is e ErrReportAlreadyExists"
    using withTx_fn_error[of faults "InitialiseReport_fn faults intent" db tx1 Report_zero
        "Wrapf ''InitialiseReport: create report: '' err' []" Report_zero
        "''store: report already exists for session''"] b fn ne
    by (auto simp: ErrReportAlreadyExists_def)
  then show ?thesis by (auto simp: InitialiseReport_def)
qed

lemma InitialiseReport_success_D:
  assumes "InitialiseReport faults db intent = (db1, r1, None)"
  shows "\<exists>tx1 session err.
           MarkSessionPaid faults db (Some intent) = Inr (tx1, session)
         \<and> GetReportBySessionID faults tx1 (SessionID session) = Inl err
         \<and> errors_Is err sql_ErrNoRows
         \<and> CreateReport faults tx1 (SessionID session) = Inr (db1, r1)"
proof -
  from assms have w: "withTx faults db Report_zero (InitialiseReport_fn faults intent) = (db1, r1, None)"
    by (auto simp: InitialiseReport_def split: prod.splits option.splits if_splits)
  then have fn: "InitialiseReport_fn faults intent db = (db1, r1, None)"
    by (auto simp: withTx_def split: if_splits prod.splits option.splits)
  then show ?thesis
    by (auto simp: InitialiseReport_fn_def split: sum.splits prod.splits if_splits)
qed

lemma InitialiseReport_redelivery:
  assumes first: "InitialiseReport faults db intent = (db1, r1, None)"
    and f2: "BeginTx \<notin> set faults2" "QMarkSessionPaid \<notin> set faults2"
            "QGetReportBySessionID \<notin> set faults2"
  shows "InitialiseReport faults2 (db1\<lparr>now := t\<rparr>) intent
           = (db1\<lparr>now := t\<rparr>, r1, Some ErrReportAlreadyExists)
       \<and> filter (\<lambda>r. ReportSessionID r = ReportSessionID r1) (reports db1) = [r1]"
proof -
  from InitialiseReport_success_D[OF first] obtain tx1 session err where
    m: "MarkSessionPaid faults db (Some intent) = Inr (tx1, session)"
    and g: "GetReportBySessionID faults tx1 (SessionID session) = Inl err"
           "errors_Is err sql_ErrNoRows"
    and c: "CreateReport faults tx1 (SessionID session) = Inr (db1, r1)"
    by blast
  note cd = CreateReport_Inr_D[OF c]
  have none: "filter (\<lambda>r. ReportSessionID r = SessionID session) (reports tx1) = []"
    using GetReportBySessionID_NoRows_D[OF g] .
  have one: "filter (\<lambda>r. ReportSessionID r = ReportSessionID r1) (reports db1) = [r1]"
    using none by (simp add: cd)
  have db1: "db1\<lparr>now := t\<rparr> = tx1\<lparr>reports := reports db1, now := t\<rparr>"
    by (simp add: cd(1))
  from MarkSessionPaid_again[OF m f2(2), where rs = "reports db1" and t = t] obtain tx1' session' where
    m2: "MarkSessionPaid faults2 (db1\<lparr>now := t\<rparr>) (Some intent) = Inr (tx1', session')"
    and sid: "SessionID session' = SessionID session" and rs: "reports tx1' = reports db1"
    unfolding db1 by blast
  have g2: "GetReportBySessionID faults2 tx1' (SessionID session') = Inr r1"
    using f2(3) one by (simp add: GetReportBySessionID_def sid rs cd(2)[symmetric])
  show ?thesis using InitialiseReport_existing[OF f2(1) m2 g2] one by simp
qed

text \<open>
  Claim C1.  When, inside the transaction, the session owning the payment intent is marked
  paid and a report row for it is found, \<open>InitialiseReport\<close> returns that row with the sentinel
  \<open>ErrReportAlreadyExists\<close> and leaves the database as it was, so no second report is created.
  After a delivery that created the report, a second delivery of the same intent, at any
  later time, returns that report with the sentinel, and the session has exactly one report
  row.  When the session has been marked paid and the creation of the report then fails, the
  call returns an error that is not the sentinel and the database is what it was before the
  call.  In fact no call that returns an error changes the database.
\<close>

theorem InitialiseReport_idempotent:
  "(BeginTx \<notin> set faults
      \<and> MarkSessionPaid faults db (Some intent) = Inr (tx1, session)
      \<and> GetReportBySessionID faults tx1 (SessionID session) = Inr existing \<longrightarrow>
        InitialiseReport faults db intent = (db, existing, Some ErrReportAlreadyExists))
   \<and> (InitialiseReport faults db intent = (db1, r1, None)
      \<and> BeginTx \<notin> set faults2 \<and> QMarkSessionPaid \<notin> set faults2
      \<and> QGetReportBySessionID \<notin> set faults2 \<longrightarrow>
        InitialiseReport faults2 (db1\<lparr>now := t\<rparr>) intent
          = (db1\<lparr>now := t\<rparr>, r1, Some ErrReportAlreadyExists)
      \<and> filter (\<lambda>r. ReportSessionID r = ReportSessionID r1) (reports db1) = [r1])
   \<and> (BeginTx \<notin> set faults
      \<and> MarkSessionPaid faults db (Some intent) = Inr (tx1, session)
      \<and> GetReportBySessionID faults tx1 (SessionID session) = Inl err
      \<and> errors_Is err sql_ErrNoRows
      \<and> CreateReport faults tx1 (SessionID session) = Inl err' \<longrightarrow>
        PaymentStatus session = PaymentPaid
      \<and> (\<exists>e. InitialiseReport faults db intent = (db, Report_zero, Some e)
             \<and> \<not> errors_Is e ErrReportAlreadyExists))
   \<and> (InitialiseReport faults db intent = (db', report, Some e') \<longrightarrow> db' = db)"
proof (intro conjI impI)
  assume "BeginTx \<notin> set faults
      \<and> MarkSessionPaid faults db (Some intent) = Inr (tx1, session)
      \<and> GetReportBySessionID faults tx1 (SessionID session) = Inr existing"
  then show "InitialiseReport faults db intent = (db, existing, Some ErrReportAlreadyExists)"
    using InitialiseReport_existing by blast
next
  assume a: "InitialiseReport faults db intent = (db1, r1, None)
      \<and> BeginTx \<notin> set faults2 \<and> QMarkSessionPaid \<notin> set faults2
      \<and> QGetReportBySessionID \<notin> set faults2"
  then have "InitialiseReport faults2 (db1\<lparr>now := t\<rparr>) intent
          = (db1\<lparr>now := t\<rparr>, r1, Some ErrReportAlreadyExists)
      \<and> filter (\<lambda>r. ReportSessionID r = ReportSessionID r1) (reports db1) = [r1]"
    by (intro InitialiseReport_redelivery[of faults db intent db1 r1 faults2 t]) simp_all
  then show "InitialiseReport faults2 (db1\<lparr>now := t\<rparr>) intent
          = (db1\<lparr>now := t\<rparr>, r1, Some ErrReportAlreadyExists)"
    and "filter (\<lambda>r. ReportSessionID r = ReportSessionID r1) (reports db1) = [r1]"
    by simp_all
next
  assume a: "BeginTx \<notin> set faults
      \<and> MarkSessionPaid faults db (Some intent) = Inr (tx1, session)
      \<and> GetReportBySessionID faults tx1 (SessionID session) = Inl err
      \<and> errors_Is err sql_ErrNoRows
      \<and> CreateReport faults tx1 (SessionID session) = Inl err'"
  then show "PaymentStatus session = PaymentPaid"
    using MarkSessionPaid_Inr_D(3) by blast
  from a show "\<exists>e. InitialiseReport faults db intent = (db, Report_zero, Some e)
             \<and> \<not> errors_Is e ErrReportAlreadyExists"
    using InitialiseReport_create_fails by blast
next
  assume "InitialiseReport faults db intent = (db', report, Some e')"
  then show "db' = db" by (rule InitialiseReport_error_keeps_db)
qed

theorem InitialiseReport_idempotent_witness:
  "InitialiseReport [] db_0 ''pi_A'' = (db_1, report_1, None)
   \<and> InitialiseReport [QCreateReport, Commit] (db_1\<lparr>now := 9\<rparr>) ''pi_A''
       = (db_1\<lparr>now := 9\<rparr>, report_1, Some ErrReportAlreadyExists)
   \<and> filter (\<lambda>r. ReportSessionID r = 2) (reports db_1) = [report_1]
   \<and> InitialiseReport [Rollback] db_1 ''pi_A''
       = (db_1, report_1, Some ErrReportAlreadyExists)
   \<and> InitialiseReport [QCreateReport] db_0 ''pi_A''
       = (db_0, Report_zero,
          Some (Wrapf ''InitialiseReport: create report: '' io_error []))"
proof -
  obtain tx session where
    m1: "MarkSessionPaid [Rollback] db_1 (Some ''pi_A'') = Inr (tx, session)"
    by (simp add: MarkSessionPaid_def db_1_def db_0_def session_1_def session_2_def Let_def)
  have d1: "reports tx = [report_1]" "SessionID session = 2"
    using m1
    by (auto simp: MarkSessionPaid_def db_1_def db_0_def session_1_def session_2_def Let_def)
  have g1: "GetReportBySessionID [Rollback] tx (SessionID session) = Inr report_1"
    by (simp add: GetReportBySessionID_def d1 report_1_def)
  have again: "InitialiseReport [Rollback] db_1 ''pi_A''
       = (db_1, report_1, Some ErrReportAlreadyExists)"
    using InitialiseReport_idempotent
      [where faults = "[Rollback]" and db = db_1 and intent = "''pi_A''" and ?tx1.0 = tx
         and session = session and existing = report_1]
      m1 g1
    by simp
  have first: "InitialiseReport [] db_0 ''pi_A'' = (db_1, report_1, None)"
    by code_simp
  have f2: "BeginTx \<notin> set [QCreateReport, Commit]" "QMarkSessionPaid \<notin> set [QCreateReport, Commit]"
    "QGetReportBySessionID \<notin> set [QCreateReport, Commit]"
    by simp_all
  have second: "InitialiseReport [QCreateReport, Commit] (db_1\<lparr>now := 9\<rparr>) ''pi_A''
       = (db_1\<lparr>now := 9\<rparr>, report_1, Some ErrReportAlreadyExists)
     \<and> filter (\<lambda>r. ReportSessionID r = ReportSessionID report_1) (reports db_1) = [report_1]"
    using InitialiseReport_idempotent
      [where faults = "[]" and db = db_0 and intent = "''pi_A''" and ?db1.0 = db_1
         and ?r1.0 = report_1 and ?faults2.0 = "[QCreateReport, Commit]" and t = 9]
      first f2
    by blast
  have rs: "ReportSessionID report_1 = 2" by (simp add: report_1_def)
  obtain tx1 session where m: "MarkSessionPaid [QCreateReport] db_0 (Some ''pi_A'') = Inr (tx1, session)"
    by (simp add: MarkSessionPaid_def db_0_def session_1_def session_2_def Let_def)
  have dm: "tx1 = db_0\<lparr>sessions := [session_1, session_2\<lparr>PaymentStatus := PaymentPaid,
                PaidAt := Some 7, SessionUpdatedAt := 7\<rparr>]\<rparr>" "SessionID session = 2"
    using m by (auto simp: MarkSessionPaid_def db_0_def session_1_def session_2_def Let_def)
  have g: "GetReportBySessionID [QCreateReport] tx1 (SessionID session) = Inl sql_ErrNoRows"
    by (simp add: dm GetReportBySessionID_def db_0_def)
  have c: "CreateReport [QCreateReport] tx1 (SessionID session) = Inl io_error"
    by (simp add: CreateReport_def)
  have "\<exists>e. InitialiseReport [QCreateReport] db_0 ''pi_A'' = (db_0, Report_zero, Some e)
             \<and> \<not> errors_Is e ErrReportAlreadyExists"
    using InitialiseReport_idempotent
      [where faults = "[QCreateReport]" and db = db_0 and intent = "''pi_A''" and ?tx1.0 = tx1
         and session = session and err = sql_ErrNoRows and err' = io_error]
      m g c
    by (simp add: errors_Is_refl)
  then have third: "InitialiseReport [QCreateReport] db_0 ''pi_A''
       = (db_0, Report_zero, Some (Wrapf ''InitialiseReport: create report: '' io_error []))"
    by (simp add: InitialiseReport_def withTx_def InitialiseReport_fn_def m g c
        errors_Is_refl ErrReportAlreadyExists_def io_error_def)
  show ?thesis using first second again third rs by simp
qed

subsection \<open>PersistScoredReport\<close>

lemma fold_max_ge: "x \<in> set ids \<Longrightarrow> x \<le> fold max ids (a::nat)"
proof (induction ids arbitrary: a)
  case Nil
  then show ?case by simp
next
  case (Cons y ys)
  have mono: "b \<le> fold max ys (b::nat)" for b
    by (induction ys arbitrary: b) (auto intro: order_trans[OF max.cobounded2])
  show ?case
  proof (cases "x = y")
    case True
    have "y \<le> max y a" by simp
    also have "\<dots> \<le> fold max ys (max y a)" by (rule mono)
    finally show ?thesis using True by simp
  next
    case False
    with Cons.prems have "x \<in> set ys" by simp
    then show ?thesis using Cons.IH by simp
  qed
qed

lemma fresh_id_new: "fresh_id ids \<notin> set ids"
  using fold_max_ge[of "fresh_id ids" ids 0] by (auto simp: fresh_id_def)

lemma InsertRiskResult_Inr_D:
  assumes "InsertRiskResult faults tx arg = Inr (tx', row)"
  shows "tx' = tx\<lparr>risk_results := risk_results tx @ [row]\<rparr>"
    and "row = arg\<lparr>ResultID := fresh_id (map ResultID (risk_results tx)), AiHedge := None\<rparr>"
    and "\<forall>x\<in>set (risk_results tx). \<not> (ResultReportID x = ResultReportID arg
                                        \<and> ResultQuestionID x = ResultQuestionID arg)"
  using assms
  by (auto simp: InsertRiskResult_def Let_def list_ex_iff split: if_splits)

lemma insert_risks_inv:
  assumes "insert_risks faults rid tx m risks = Inr (tx', m')"
    and "ids_point_to_rows (risk_results tx) m rid"
    and "\<forall>q rowID. m q = Some rowID \<longrightarrow> ai_hedge_of tx rid q = [None]"
  shows "ids_point_to_rows (risk_results tx') m' rid
       \<and> (\<forall>q rowID. m' q = Some rowID \<longrightarrow> ai_hedge_of tx' rid q = [None])
       \<and> dom m' = dom m \<union> QuestionID ` set risks"
  using assms
proof (induction risks arbitrary: tx m)
  case Nil
  then show ?case by simp
next
  case (Cons risk risks)
  from Cons.prems(1) obtain tx1 row where
    ins: "InsertRiskResult faults tx (risk_row rid risk) = Inr (tx1, row)"
    and rest: "insert_risks faults rid tx1 (m(QuestionID risk \<mapsto> ResultID row)) risks = Inr (tx', m')"
    by (auto split: sum.splits)
  note d = InsertRiskResult_Inr_D[OF ins]
  define q0 where "q0 = QuestionID risk"
  define rows where "rows = risk_results tx"
  have rows1: "risk_results tx1 = rows @ [row]" by (simp add: d(1) rows_def)
  have rkey: "ResultReportID row = rid" "ResultQuestionID row = q0"
    and rh: "AiHedge row = None"
    by (simp_all add: d(2) risk_row_def q0_def)
  have rid_new: "\<forall>x\<in>set rows. ResultID x \<noteq> ResultID row"
  proof
    fix x assume "x \<in> set rows"
    then have "ResultID x \<in> set (map ResultID rows)" by simp
    then have "ResultID x \<noteq> fresh_id (map ResultID rows)"
      using fresh_id_new[of "map ResultID rows"] by metis
    then show "ResultID x \<noteq> ResultID row" by (simp add: d(2) rows_def)
  qed
  have nokey: "\<forall>x\<in>set rows. \<not> (ResultReportID x = rid \<and> ResultQuestionID x = q0)"
    using d(3) by (simp add: risk_row_def q0_def rows_def)
  have old: "m q = Some rowID \<Longrightarrow> q \<noteq> q0 \<and> rowID \<noteq> ResultID row" for q rowID
  proof -
    assume a: "m q = Some rowID"
    with Cons.prems(2) have
      l: "length (filter (\<lambda>x. ResultReportID x = rid \<and> ResultQuestionID x = q) rows) = 1"
      and i: "\<forall>x\<in>set rows. ResultID x = rowID \<longleftrightarrow> ResultReportID x = rid \<and> ResultQuestionID x = q"
      by (auto simp: ids_point_to_rows_def rows_def)
    from l obtain x where "filter (\<lambda>x. ResultReportID x = rid \<and> ResultQuestionID x = q) rows = [x]"
      by (cases "filter (\<lambda>x. ResultReportID x = rid \<and> ResultQuestionID x = q) rows") auto
    then have "x \<in> set (filter (\<lambda>x. ResultReportID x = rid \<and> ResultQuestionID x = q) rows)"
      by simp
    then have x: "x \<in> set rows" "ResultReportID x = rid" "ResultQuestionID x = q" by auto
    with i have "ResultID x = rowID" by blast
    with x nokey rid_new show ?thesis by auto
  qed
  have inv1: "ids_point_to_rows (risk_results tx1) (m(q0 \<mapsto> ResultID row)) rid"
    unfolding ids_point_to_rows_def rows1
  proof (intro allI impI)
    fix q rowID assume a: "(m(q0 \<mapsto> ResultID row)) q = Some rowID"
    show "length (filter (\<lambda>x. ResultReportID x = rid \<and> ResultQuestionID x = q) (rows @ [row])) = 1
        \<and> (\<forall>x\<in>set (rows @ [row]). ResultID x = rowID \<longleftrightarrow> ResultReportID x = rid \<and> ResultQuestionID x = q)"
    proof (cases "q = q0")
      case True
      then have id: "rowID = ResultID row" using a by simp
      have "filter (\<lambda>x. ResultReportID x = rid \<and> ResultQuestionID x = q0) rows = []"
        using nokey by (simp add: filter_empty_conv)
      then show ?thesis using True id rkey rid_new nokey by auto
    next
      case False
      then have mq: "m q = Some rowID" using a by simp
      from old[OF mq] have ne: "rowID \<noteq> ResultID row" by simp
      from mq Cons.prems(2) have
        "length (filter (\<lambda>x. ResultReportID x = rid \<and> ResultQuestionID x = q) rows) = 1"
        "\<forall>x\<in>set rows. ResultID x = rowID \<longleftrightarrow> ResultReportID x = rid \<and> ResultQuestionID x = q"
        by (auto simp: ids_point_to_rows_def rows_def)
      then show ?thesis using False rkey ne by auto
    qed
  qed
  have h1: "\<forall>q rowID. (m(q0 \<mapsto> ResultID row)) q = Some rowID \<longrightarrow> ai_hedge_of tx1 rid q = [None]"
  proof (intro allI impI)
    fix q rowID assume a: "(m(q0 \<mapsto> ResultID row)) q = Some rowID"
    show "ai_hedge_of tx1 rid q = [None]"
    proof (cases "q = q0")
      case True
      have "filter (\<lambda>x. ResultReportID x = rid \<and> ResultQuestionID x = q0) rows = []"
        using nokey by (simp add: filter_empty_conv)
      then show ?thesis using True rkey rh by (simp add: ai_hedge_of_def rows1)
    next
      case False
      then have mq: "m q = Some rowID" using a by simp
      then have "ai_hedge_of tx rid q = [None]" using Cons.prems(3) by blast
      then show ?thesis using False rkey by (simp add: ai_hedge_of_def rows1 rows_def)
    qed
  qed
  from Cons.IH[OF rest[unfolded q0_def[symmetric]] inv1 h1]
  show ?case by (auto simp: q0_def)
qed

lemma SetAIHedge_Inr_D:
  assumes "SetAIHedge faults tx rowID h = Inr (tx', row)"
  shows "tx' = tx\<lparr>risk_results :=
                    map (\<lambda>x. if ResultID x = rowID then x\<lparr>AiHedge := h\<rparr> else x) (risk_results tx)\<rparr>"
  using assms by (auto simp: SetAIHedge_def Let_def split: if_splits list.splits)

lemma ids_point_to_rows_SetAIHedge:
  assumes "ids_point_to_rows rows m rid"
  shows "ids_point_to_rows (map (\<lambda>x. if ResultID x = rowID then x\<lparr>AiHedge := h\<rparr> else x) rows) m rid"
proof -
  define upd where "upd = (\<lambda>x::RiskResult. if ResultID x = rowID then x\<lparr>AiHedge := h\<rparr> else x)"
  have k: "ResultReportID (upd x) = ResultReportID x" "ResultQuestionID (upd x) = ResultQuestionID x"
    "ResultID (upd x) = ResultID x" for x
    by (simp_all add: upd_def)
  have f: "filter (\<lambda>x. ResultReportID x = rid \<and> ResultQuestionID x = q) (map upd rows)
           = map upd (filter (\<lambda>x. ResultReportID x = rid \<and> ResultQuestionID x = q) rows)" for q
    unfolding upd_def by (rule filter_map_update) simp
  have "ids_point_to_rows (map upd rows) m rid"
    using assms unfolding ids_point_to_rows_def by (simp add: f k)
  then show ?thesis by (simp add: upd_def)
qed

lemma apply_hedges_effect:
  assumes "apply_hedges faults tx m hs = Inr tx'" and "distinct (map fst hs)"
    and "ids_point_to_rows (risk_results tx) m rid"
  shows "\<forall>q rowID. m q = Some rowID \<longrightarrow>
           ai_hedge_of tx' rid q
             = (case map_of hs q of
                  None \<Rightarrow> ai_hedge_of tx rid q
                | Some h \<Rightarrow> if h \<noteq> [] then [Some h] else ai_hedge_of tx rid q)"
  using assms
proof (induction hs arbitrary: tx)
  case Nil
  then show ?case by simp
next
  case (Cons e rest)
  obtain q0 h0 where e: "e = (q0, h0)" by (cases e)
  have dr: "distinct (map fst rest)" and q0r: "map_of rest q0 = None"
    using Cons.prems(2) by (auto simp: e map_of_eq_None_iff)
  show ?case
  proof (cases "m q0 = None \<or> h0 = []")
    case True
    then have rest: "apply_hedges faults tx m rest = Inr tx'"
      using Cons.prems(1) by (auto simp: e split: option.splits)
    from Cons.IH[OF rest dr Cons.prems(3)] True q0r show ?thesis
      by (auto simp: e split: option.splits)
  next
    case False
    then obtain id0 where id0: "m q0 = Some id0" and h0: "h0 \<noteq> []" by auto
    from Cons.prems(1) obtain tx1 row where
      set: "SetAIHedge faults tx id0 (Some h0) = Inr (tx1, row)"
      and rest: "apply_hedges faults tx1 m rest = Inr tx'"
      using id0 h0 by (auto simp: e split: sum.splits)
    define rows where "rows = risk_results tx"
    define upd where "upd = (\<lambda>x::RiskResult. if ResultID x = id0 then x\<lparr>AiHedge := Some h0\<rparr> else x)"
    have rows1: "risk_results tx1 = map upd rows"
      using SetAIHedge_Inr_D[OF set] by (simp add: rows_def upd_def)
    have inv1: "ids_point_to_rows (risk_results tx1) m rid"
      unfolding rows1 upd_def using Cons.prems(3)
      by (simp add: rows_def ids_point_to_rows_SetAIHedge)
    from id0 Cons.prems(3) have
      l0: "length (filter (\<lambda>x. ResultReportID x = rid \<and> ResultQuestionID x = q0) rows) = 1"
      and i0: "\<forall>x\<in>set rows. ResultID x = id0 \<longleftrightarrow> ResultReportID x = rid \<and> ResultQuestionID x = q0"
      by (auto simp: ids_point_to_rows_def rows_def)
    have filt: "filter (\<lambda>x. ResultReportID x = rid \<and> ResultQuestionID x = q) (map upd rows)
                = map upd (filter (\<lambda>x. ResultReportID x = rid \<and> ResultQuestionID x = q) rows)" for q
      unfolding upd_def by (rule filter_map_update) simp
    have at_q0: "ai_hedge_of tx1 rid q0 = [Some h0]"
    proof -
      from l0 obtain x where
        fx: "filter (\<lambda>x. ResultReportID x = rid \<and> ResultQuestionID x = q0) rows = [x]"
        by (cases "filter (\<lambda>x. ResultReportID x = rid \<and> ResultQuestionID x = q0) rows") auto
      then have "x \<in> set (filter (\<lambda>x. ResultReportID x = rid \<and> ResultQuestionID x = q0) rows)"
        by simp
      then have "ResultID x = id0" using i0 by auto
      then have "AiHedge (upd x) = Some h0" by (simp add: upd_def)
      then show ?thesis by (simp add: ai_hedge_of_def rows1 filt fx)
    qed
    have at_other: "ai_hedge_of tx1 rid q = ai_hedge_of tx rid q" if "q \<noteq> q0" for q
    proof -
      have "\<forall>x\<in>set (filter (\<lambda>x. ResultReportID x = rid \<and> ResultQuestionID x = q) rows).
              \<not> ResultID x = id0"
        using i0 that by auto
      then have "map upd (filter (\<lambda>x. ResultReportID x = rid \<and> ResultQuestionID x = q) rows)
                 = filter (\<lambda>x. ResultReportID x = rid \<and> ResultQuestionID x = q) rows"
        unfolding upd_def by (rule map_update_miss)
      then have "filter (\<lambda>x. ResultReportID x = rid \<and> ResultQuestionID x = q) (map upd rows)
                 = filter (\<lambda>x. ResultReportID x = rid \<and> ResultQuestionID x = q) rows"
        by (simp only: filt)
      then show ?thesis by (simp add: ai_hedge_of_def rows1 rows_def)
    qed
    show ?thesis
    proof (intro allI impI)
      fix q rowID assume mq: "m q = Some rowID"
      from Cons.IH[OF rest dr inv1] mq have ih:
        "ai_hedge_of tx' rid q
             = (case map_of rest q of
                  None \<Rightarrow> ai_hedge_of tx1 rid q
                | Some h \<Rightarrow> if h \<noteq> [] then [Some h] else ai_hedge_of tx1 rid q)"
        by blast
      show "ai_hedge_of tx' rid q
             = (case map_of (e # rest) q of
                  None \<Rightarrow> ai_hedge_of tx rid q
                | Some h \<Rightarrow> if h \<noteq> [] then [Some h] else ai_hedge_of tx rid q)"
      proof (cases "q = q0")
        case True
        then show ?thesis using ih q0r at_q0 h0 by (simp add: e)
      next
        case False
        then show ?thesis using ih at_other[OF False] by (simp add: e split: option.splits)
      qed
    qed
  qed
qed

lemma apply_hedges_skip:
  "apply_hedges faults tx m hs
     = apply_hedges faults tx m (filter (\<lambda>(q, h). q \<in> dom m \<and> h \<noteq> []) hs)"
proof (induction hs arbitrary: tx)
  case Nil
  then show ?case by simp
next
  case (Cons e rest)
  obtain q0 h0 where e: "e = (q0, h0)" by (cases e)
  show ?case
    using Cons.IH by (auto simp: e split: option.splits sum.splits)
qed

lemma update_report_risk_results:
  "update_report tx rid upd = Inr (tx', r) \<Longrightarrow> risk_results tx' = risk_results tx"
  by (auto simp: update_report_def Let_def split: list.splits)

lemma PersistScoredReport_success_D:
  assumes "PersistScoredReport faults db p = (db', report, None)"
  shows "\<exists>tx1 claimed tx2 m tx3.
           SetReportProcessing faults db (pReportID p) = Inr (tx1, claimed)
         \<and> risk_results tx1 = risk_results db
         \<and> insert_risks faults (pReportID p) tx1 Map.empty (Risks p) = Inr (tx2, m)
         \<and> apply_hedges faults tx2 m (AIHedges p) = Inr tx3
         \<and> risk_results db' = risk_results tx3"
proof -
  from assms have "withTx faults db Report_zero (PersistScoredReport_fn faults p) = (db', report, None)"
    by (auto simp: PersistScoredReport_def split: prod.splits option.splits)
  then have fn: "PersistScoredReport_fn faults p db = (db', report, None)"
    by (auto simp: withTx_def split: if_splits prod.splits option.splits)
  then obtain tx1 claimed tx2 m tx3 where
    a: "SetReportProcessing faults db (pReportID p) = Inr (tx1, claimed)"
    and b: "insert_risks faults (pReportID p) tx1 Map.empty (Risks p) = Inr (tx2, m)"
    and c: "apply_hedges faults tx2 m (AIHedges p) = Inr tx3"
    and d: "FinalizeReport faults tx3
              \<lparr>fID = pReportID p, fOverallScore = Some (int16 (OverallScore (Risks p))),
               fCriticalCount = Some (int16 (CriticalCount (Risks p))),
               fRisksJson = Some (Risks p),
               fExecutiveSummary = null_if_empty (pExecutiveSummary p),
               fTopPriorityHtml = null_if_empty (pTopPriorityHTML p)\<rparr> = Inr (db', report)"
    by (auto simp: PersistScoredReport_fn_def Let_def split: sum.splits prod.splits)
  have "risk_results tx1 = risk_results db"
    using a by (auto simp: SetReportProcessing_def split: if_splits dest: update_report_risk_results)
  moreover have "risk_results db' = risk_results tx3"
    using d by (auto simp: FinalizeReport_def split: if_splits dest: update_report_risk_results)
  ultimately show ?thesis using a b c by blast
qed

lemma insert_risks_from_empty:
  assumes "insert_risks faults rid tx Map.empty risks = Inr (tx', m)"
  shows "ids_point_to_rows (risk_results tx') m rid"
    and "\<forall>q rowID. m q = Some rowID \<longrightarrow> ai_hedge_of tx' rid q = [None]"
    and "dom m = QuestionID ` set risks"
  using insert_risks_inv[OF assms] by (simp_all add: ids_point_to_rows_def)

lemma PersistScoredReport_fn_skip:
  "PersistScoredReport_fn faults p tx
   = PersistScoredReport_fn faults
       (p\<lparr>AIHedges := filter (\<lambda>(q, h). q \<in> QuestionID ` set (Risks p) \<and> h \<noteq> []) (AIHedges p)\<rparr>) tx"
proof (cases "SetReportProcessing faults tx (pReportID p)")
  case (Inl e)
  then show ?thesis by (simp add: PersistScoredReport_fn_def)
next
  case (Inr a)
  obtain tx1 claimed where a: "a = (tx1, claimed)" by (cases a)
  show ?thesis
  proof (cases "insert_risks faults (pReportID p) tx1 Map.empty (Risks p)")
    case (Inl e)
    then show ?thesis using Inr a by (simp add: PersistScoredReport_fn_def)
  next
    case ins: (Inr b)
    obtain tx2 m where b: "b = (tx2, m)" by (cases b)
    have dm: "dom m = QuestionID ` set (Risks p)"
      using insert_risks_from_empty(3)[OF ins[unfolded b]] .
    have "apply_hedges faults tx2 m (AIHedges p)
          = apply_hedges faults tx2 m
              (filter (\<lambda>(q, h). q \<in> QuestionID ` set (Risks p) \<and> h \<noteq> []) (AIHedges p))"
      using apply_hedges_skip[of faults tx2 m "AIHedges p"] by (simp add: dm)
    then show ?thesis using Inr a ins b
      by (simp add: PersistScoredReport_fn_def Let_def split: sum.splits)
  qed
qed

lemma PersistScoredReport_skip:
  "PersistScoredReport faults db p
   = PersistScoredReport faults db
       (p\<lparr>AIHedges := filter (\<lambda>(q, h). q \<in> QuestionID ` set (Risks p) \<and> h \<noteq> []) (AIHedges p)\<rparr>)"
  using PersistScoredReport_fn_skip[of faults p db]
  by (simp add: PersistScoredReport_def withTx_def)

text \<open>
  Claim C3 (amended).  \<open>PersistScoredReport\<close> skips every entry of the AI-hedge map whose
  question is not among the scored risks, and every entry whose text is empty: the call does
  what it does without them, so they never abort it.  When the call succeeds, every entry
  with non-empty text whose question is among the scored risks has its text in the
  \<^verbatim>\<open>ai_hedge\<close> column of the one result row of the report for that question, and the row of a
  scored risk with no such entry has a null \<^verbatim>\<open>ai_hedge\<close>.
\<close>

theorem PersistScoredReport_ai_hedges:
  "PersistScoredReport faults db p
     = PersistScoredReport faults db
         (p\<lparr>AIHedges := filter (\<lambda>(q, h). q \<in> QuestionID ` set (Risks p) \<and> h \<noteq> []) (AIHedges p)\<rparr>)
   \<and> (PersistScoredReport faults db p = (db', report, None) \<and> distinct (map fst (AIHedges p)) \<longrightarrow>
        (\<forall>(q, h) \<in> set (AIHedges p). q \<in> QuestionID ` set (Risks p) \<and> h \<noteq> [] \<longrightarrow>
            ai_hedge_of db' (pReportID p) q = [Some h])
      \<and> (\<forall>risk \<in> set (Risks p). (\<forall>h. (QuestionID risk, h) \<in> set (AIHedges p) \<longrightarrow> h = []) \<longrightarrow>
            ai_hedge_of db' (pReportID p) (QuestionID risk) = [None]))"
proof (intro conjI impI)
  show "PersistScoredReport faults db p
     = PersistScoredReport faults db
         (p\<lparr>AIHedges := filter (\<lambda>(q, h). q \<in> QuestionID ` set (Risks p) \<and> h \<noteq> []) (AIHedges p)\<rparr>)"
    by (rule PersistScoredReport_skip)
next
  assume a: "PersistScoredReport faults db p = (db', report, None) \<and> distinct (map fst (AIHedges p))"
  then have dist: "distinct (map fst (AIHedges p))" by simp
  from a PersistScoredReport_success_D obtain tx1 claimed tx2 m tx3 where
    ins: "insert_risks faults (pReportID p) tx1 Map.empty (Risks p) = Inr (tx2, m)"
    and app: "apply_hedges faults tx2 m (AIHedges p) = Inr tx3"
    and rr: "risk_results db' = risk_results tx3"
    by blast
  note i = insert_risks_from_empty[OF ins]
  have eff: "m q = Some rowID \<Longrightarrow>
           ai_hedge_of tx3 (pReportID p) q
             = (case map_of (AIHedges p) q of
                  None \<Rightarrow> [None]
                | Some h \<Rightarrow> if h \<noteq> [] then [Some h] else [None])" for q rowID
    using apply_hedges_effect[OF app dist i(1)] i(2) by (auto split: option.splits)
  have same: "ai_hedge_of db' (pReportID p) q = ai_hedge_of tx3 (pReportID p) q" for q
    by (simp add: ai_hedge_of_def rr)
  show "\<forall>(q, h) \<in> set (AIHedges p). q \<in> QuestionID ` set (Risks p) \<and> h \<noteq> [] \<longrightarrow>
            ai_hedge_of db' (pReportID p) q = [Some h]"
  proof (intro ballI, clarify)
    fix q h risk assume qh: "(QuestionID risk, h) \<in> set (AIHedges p)" and "risk \<in> set (Risks p)"
      and h: "h \<noteq> []"
    then have "QuestionID risk \<in> dom m" using i(3) by auto
    then obtain rowID where "m (QuestionID risk) = Some rowID" by auto
    moreover have "map_of (AIHedges p) (QuestionID risk) = Some h"
      using dist qh by simp
    ultimately show "ai_hedge_of db' (pReportID p) (QuestionID risk) = [Some h]"
      using eff h by (simp add: same)
  qed
  show "\<forall>risk \<in> set (Risks p). (\<forall>h. (QuestionID risk, h) \<in> set (AIHedges p) \<longrightarrow> h = []) \<longrightarrow>
            ai_hedge_of db' (pReportID p) (QuestionID risk) = [None]"
  proof (intro ballI impI)
    fix risk assume r: "risk \<in> set (Risks p)"
      and e: "\<forall>h. (QuestionID risk, h) \<in> set (AIHedges p) \<longrightarrow> h = []"
    then have "QuestionID risk \<in> dom m" using i(3) by auto
    then obtain rowID where mq: "m (QuestionID risk) = Some rowID" by auto
    have "map_of (AIHedges p) (QuestionID risk) = Some h \<Longrightarrow> h = []" for h
      using e by (auto dest: map_of_SomeD)
    then show "ai_hedge_of db' (pReportID p) (QuestionID risk) = [None]"
      using eff[OF mq] by (auto simp: same split: option.splits)
  qed
qed

theorem PersistScoredReport_ai_hedges_witness:
  "snd (snd (PersistScoredReport [] db_1
        (persist_params [(''q_b'', []), (''q_zz'', ''stale''), (''q_a'', ''Hold six months of cash'')])))
     = None
   \<and> ai_hedge_of (fst (PersistScoredReport [] db_1
        (persist_params [(''q_b'', []), (''q_zz'', ''stale''), (''q_a'', ''Hold six months of cash'')])))
        1 ''q_a'' = [Some ''Hold six months of cash'']
   \<and> ai_hedge_of (fst (PersistScoredReport [] db_1
        (persist_params [(''q_b'', []), (''q_zz'', ''stale''), (''q_a'', ''Hold six months of cash'')])))
        1 ''q_b'' = [None]
   \<and> PersistScoredReport [] db_1
        (persist_params [(''q_b'', []), (''q_zz'', ''stale''), (''q_a'', ''Hold six months of cash'')])
     = PersistScoredReport [] db_1 (persist_params [(''q_a'', ''Hold six months of cash'')])"
proof -
  let ?hs = "[(''q_b'', []), (''q_zz'', ''stale''), (''q_a'', ''Hold six months of cash'')]"
  let ?p = "persist_params ?hs"
  have ok: "snd (snd (PersistScoredReport [] db_1 ?p)) = None" by code_simp
  then obtain db' report where r: "PersistScoredReport [] db_1 ?p = (db', report, None)"
    by (cases "PersistScoredReport [] db_1 ?p") auto
  have d: "distinct (map fst (AIHedges ?p))" by (simp add: persist_params_def)
  note t = PersistScoredReport_ai_hedges [of "[]" db_1 ?p db' report]
  have rid: "pReportID ?p = 1" by (simp add: persist_params_def)
  have a: "ai_hedge_of db' 1 ''q_a'' = [Some ''Hold six months of cash'']"
    using t r d unfolding rid by (simp add: persist_params_def risk_of_def)
  have b: "ai_hedge_of db' 1 ''q_b'' = [None]"
    using t r d unfolding rid by (simp add: persist_params_def risk_of_def)
  have "filter (\<lambda>(q, h). q \<in> QuestionID ` set (Risks ?p) \<and> h \<noteq> []) (AIHedges ?p)
        = [(''q_a'', ''Hold six months of cash'')]"
    by (simp add: persist_params_def risk_of_def)
  then have c: "PersistScoredReport [] db_1 ?p
     = PersistScoredReport [] db_1 (persist_params [(''q_a'', ''Hold six months of cash'')])"
    using t by (simp add: persist_params_def)
  have a': "ai_hedge_of (fst (PersistScoredReport [] db_1 ?p)) 1 ''q_a''
            = [Some ''Hold six months of cash'']"
    using a by (simp add: r)
  have b': "ai_hedge_of (fst (PersistScoredReport [] db_1 ?p)) 1 ''q_b'' = [None]"
    using b by (simp add: r)
  from ok a' b' c show ?thesis by (intro conjI)
qed

text \<open>
  As first stated, the claim has the override of every entry whose question is scored
  applied.  An entry with empty text is skipped: the row keeps a null \<^verbatim>\<open>ai_hedge\<close>.
\<close>

theorem PersistScoredReport_empty_hedge_skipped:
  "snd (snd (PersistScoredReport [] db_1 (persist_params [(''q_a'', [])]))) = None
   \<and> ai_hedge_of (fst (PersistScoredReport [] db_1 (persist_params [(''q_a'', [])]))) 1 ''q_a''
       = [None]"
  by code_simp

end
